theory Spec2Isabelle
  imports Main "HOL-Library.Word"
begin

section \<open>Bytes and the coding helpers\<close>

type_synonym byte = "8 word"

text \<open>
  Modelled from the spec: coding.h (AppendU32, Append32, AppendU64, ToNetworkU32, ...) is
  not under src/. The spec fixes the wire image: every numeric field is big-endian, a u32
  takes four bytes and a u64 eight. The append functions add the bytes at the end of the
  string they are given. A header field is modelled by the number whose big-endian image
  is stored, so the ToNetwork conversions do not appear.
\<close>

definition AppendU32 :: "32 word \<Rightarrow> byte list \<Rightarrow> byte list" where
  "AppendU32 v s = s @ [ucast (drop_bit 24 v), ucast (drop_bit 16 v), ucast (drop_bit 8 v), ucast v]"

text \<open>Append32 takes an int32_t; its two's complement image is the same four bytes.\<close>

definition Append32 :: "32 word \<Rightarrow> byte list \<Rightarrow> byte list" where
  "Append32 v s = AppendU32 v s"

definition AppendU64 :: "64 word \<Rightarrow> byte list \<Rightarrow> byte list" where
  "AppendU64 v s = s @ [ucast (drop_bit 56 v), ucast (drop_bit 48 v), ucast (drop_bit 40 v),
     ucast (drop_bit 32 v), ucast (drop_bit 24 v), ucast (drop_bit 16 v), ucast (drop_bit 8 v),
     ucast v]"

text \<open>
  Signed quantities (int32_t, int64_t) are integers here. Where a value is stored into an
  int32_t that may not hold it (the narrowing assignment of Init, the running start and
  end times of the frames) the stored value is written out as the int32_t it wraps to.
  The frame counters count entries of the index and are left as integers.
\<close>

definition int32_of :: "int \<Rightarrow> int" where
  "int32_of x = sint (word_of_int x :: 32 word)"

text \<open>Modelled from the spec: kTimeUnitsPerSecond is declared outside src/; the
  timescale is fixed at 90000 ticks per second.\<close>

definition kTimeUnitsPerSecond :: int where
  "kTimeUnitsPerSecond = 90000"

section \<open>The sample index and its iterator\<close>

text \<open>
  Modelled from the spec: SampleIndexIterator (recording.h) is not under src/ and the
  encoding of the index blob is out of scope. The index is given by what it decodes to:
  the frames in order, and the decode error (if any) that ends it. The iterator is
  constructed at frame 0; Next advances; a full scan visits every frame once, in order.
  Per position it yields start_90k, duration_90k, end_90k = start + duration, bytes, is_key
  and pos, the byte offset of the frame's payload in the sample file. Start times and
  byte offsets are running sums from 0, so that after the last frame pos is the offset
  just past it. start_90k and end_90k are int32_t values: a sum that leaves the range of
  an int32_t is stored as the int32_t it wraps to. The iterator is done at the end of the
  index or at the decode error, and has_error tells the two apart.
\<close>

record frame =
  f_duration_90k :: int
  f_bytes :: int
  f_is_key :: bool

record video_index =
  vi_frames :: "frame list"
  vi_error :: "string option"

record SampleIndexIterator =
  rest :: "frame list"
  cur_start_90k :: int
  cur_pos :: int
  tail_error :: "string option"

definition SampleIndexIterator_of :: "video_index \<Rightarrow> SampleIndexIterator" where
  "SampleIndexIterator_of vi =
     \<lparr>rest = vi_frames vi, cur_start_90k = 0, cur_pos = 0, tail_error = vi_error vi\<rparr>"

text \<open>The default-constructed iterator: over nothing, hence done and without error.\<close>

definition SampleIndexIterator_default :: SampleIndexIterator where
  "SampleIndexIterator_default = \<lparr>rest = [], cur_start_90k = 0, cur_pos = 0, tail_error = None\<rparr>"

definition it_done :: "SampleIndexIterator \<Rightarrow> bool" where
  "it_done it = (rest it = [])"

definition has_error :: "SampleIndexIterator \<Rightarrow> bool" where
  "has_error it = (rest it = [] \<and> tail_error it \<noteq> None)"

definition error_of :: "SampleIndexIterator \<Rightarrow> string" where
  "error_of it = (case tail_error it of Some e \<Rightarrow> e | None \<Rightarrow> [])"

definition Next :: "SampleIndexIterator \<Rightarrow> SampleIndexIterator" where
  "Next it = (case rest it of
       [] \<Rightarrow> it
     | f # fs \<Rightarrow> it\<lparr>rest := fs,
                     cur_start_90k := int32_of (cur_start_90k it + f_duration_90k f),
                     cur_pos := cur_pos it + f_bytes f\<rparr>)"

text \<open>The accessors. The code reads the frame accessors only when the iterator is not done;
  at a done iterator the model returns 0 and False.\<close>

definition it_start_90k :: "SampleIndexIterator \<Rightarrow> int" where
  "it_start_90k it = cur_start_90k it"

definition it_pos :: "SampleIndexIterator \<Rightarrow> int" where
  "it_pos it = cur_pos it"

definition it_duration_90k :: "SampleIndexIterator \<Rightarrow> int" where
  "it_duration_90k it = (case rest it of [] \<Rightarrow> 0 | f # fs \<Rightarrow> f_duration_90k f)"

definition it_bytes :: "SampleIndexIterator \<Rightarrow> int" where
  "it_bytes it = (case rest it of [] \<Rightarrow> 0 | f # fs \<Rightarrow> f_bytes f)"

definition it_is_key :: "SampleIndexIterator \<Rightarrow> bool" where
  "it_is_key it = (case rest it of [] \<Rightarrow> False | f # fs \<Rightarrow> f_is_key f)"

definition it_end_90k :: "SampleIndexIterator \<Rightarrow> int" where
  "it_end_90k it = int32_of (it_start_90k it + it_duration_90k it)"

section \<open>Recordings, sample entries and segments\<close>

record ByteRange =
  br_begin :: int
  br_end :: int

definition ByteRange_size :: "ByteRange \<Rightarrow> int" where
  "ByteRange_size r = br_end r - br_begin r"

text \<open>The fields of Recording and VideoSampleEntry that mp4.cc reads, apart from the
  uuid and the SHA-1 values, which only feed the file name and the etag.\<close>

record Recording =
  start_time_90k :: int
  end_time_90k :: int
  sample_file_bytes :: int
  video_samples :: int
  video_sync_samples :: int
  video_sample_entry_id :: int
  video_index :: video_index

record VideoSampleEntry =
  vse_id :: int
  vse_width :: "16 word"
  vse_height :: "16 word"
  vse_data :: "byte list"

text \<open>
  Modelled from the spec: the declaration of Mp4SampleTablePieces (mp4.h) is not under
  src/. Its members are the spec's: begin, sample_pos, frames, key_frames, actual_end_90k,
  desired_end_90k, sample_offset, sample_entry_index. The three filler slices are kept by
  the size declared for them at Init time. A source member name ends with an underscore,
  which is dropped here.
\<close>

record Mp4SampleTablePieces =
  begin_it :: SampleIndexIterator
  sample_pos :: ByteRange
  frames :: int
  key_frames :: int
  actual_end_90k :: int
  desired_end_90k :: int
  sample_offset :: int
  sample_entry_index :: int
  stts_entries :: int
  stss_entries :: int
  stsz_entries :: int

text \<open>
  Modelled from the spec: the member initialisers are in mp4.h. A fresh object has not
  counted any frame (frames = key_frames = 0), its byte range is [0, 0) (the fast path
  sets only the end of the range and the spec gives the range as [0, sample_file_bytes)),
  and its begin iterator is the default one. The remaining members are overwritten by Init
  or are read only after a frame has been processed; they start at -1.
\<close>

definition Mp4SampleTablePieces_new :: Mp4SampleTablePieces where
  "Mp4SampleTablePieces_new =
     \<lparr>begin_it = SampleIndexIterator_default, sample_pos = \<lparr>br_begin = 0, br_end = 0\<rparr>,
      frames = 0, key_frames = 0, actual_end_90k = - 1, desired_end_90k = - 1,
      sample_offset = - 1, sample_entry_index = - 1,
      stts_entries = 0, stss_entries = 0, stsz_entries = 0\<rparr>"

text \<open>The accessors of mp4.h, as the spec gives them: the three entry counts, samples,
  the start and end of the actual window, and its length.\<close>

definition stts_entry_count :: "Mp4SampleTablePieces \<Rightarrow> int" where
  "stts_entry_count p = frames p"

definition stss_entry_count :: "Mp4SampleTablePieces \<Rightarrow> int" where
  "stss_entry_count p = key_frames p"

definition stsz_entry_count :: "Mp4SampleTablePieces \<Rightarrow> int" where
  "stsz_entry_count p = frames p"

definition samples :: "Mp4SampleTablePieces \<Rightarrow> int" where
  "samples p = frames p"

definition pieces_start_90k :: "Mp4SampleTablePieces \<Rightarrow> int" where
  "pieces_start_90k p = it_start_90k (begin_it p)"

definition pieces_end_90k :: "Mp4SampleTablePieces \<Rightarrow> int" where
  "pieces_end_90k p = actual_end_90k p"

definition pieces_duration_90k :: "Mp4SampleTablePieces \<Rightarrow> int" where
  "pieces_duration_90k p = actual_end_90k p - it_start_90k (begin_it p)"

record Mp4FileSegment =
  recording :: Recording
  rel_start_90k :: int
  rel_end_90k :: int
  pieces :: Mp4SampleTablePieces
  sample_file_slice :: ByteRange

section \<open>Mp4SampleTablePieces::Init\<close>

text \<open>The two halves of the body of the slow path's loop: a new start candidate, and
  the processing of a frame that is not past the end. The start and end times compared
  and stored are the iterator's int32_t values.\<close>

definition new_start_candidate ::
  "int \<Rightarrow> SampleIndexIterator \<Rightarrow> Mp4SampleTablePieces \<Rightarrow> Mp4SampleTablePieces" where
  "new_start_candidate start it p =
     (if it_start_90k it \<le> start \<and> it_is_key it
      then p\<lparr>begin_it := it, sample_pos := (sample_pos p)\<lparr>br_begin := it_pos it\<rparr>,
             frames := 0, key_frames := 0\<rparr>
      else p)"

definition process_frame ::
  "SampleIndexIterator \<Rightarrow> Mp4SampleTablePieces \<Rightarrow> Mp4SampleTablePieces" where
  "process_frame it p =
     p\<lparr>frames := frames p + 1,
       key_frames := (if it_is_key it then key_frames p + 1 else key_frames p),
       actual_end_90k := it_end_90k it\<rparr>"

function scan ::
  "int \<Rightarrow> int \<Rightarrow> SampleIndexIterator \<Rightarrow> Mp4SampleTablePieces
     \<Rightarrow> SampleIndexIterator \<times> Mp4SampleTablePieces" where
  "scan start end it p =
     (if it_done it then (it, p)
      else if end \<le> it_start_90k it then (it, new_start_candidate start it p)
      else scan start end (Next it) (process_frame it (new_start_candidate start it p)))"
  by pat_completeness auto
termination
  by (relation "measure (\<lambda>(start, end, it, p). length (rest it))")
     (auto simp: it_done_def Next_def split: list.splits)

definition fast_path :: "Recording \<Rightarrow> int \<Rightarrow> int \<Rightarrow> bool" where
  "fast_path r start end = (start = 0 \<and> end_time_90k r - start_time_90k r \<le> end)"

text \<open>The tail of Init, common to both paths: the iterator's error, or the declared
  sizes of the three filler slices.\<close>

definition init_fillers ::
  "SampleIndexIterator \<Rightarrow> Mp4SampleTablePieces \<Rightarrow> string option \<times> Mp4SampleTablePieces" where
  "init_fillers it p =
     (if has_error it then (Some (error_of it), p)
      else (None, p\<lparr>stts_entries := 2 * 4 * stts_entry_count p,
                     stss_entries := 4 * stss_entry_count p,
                     stsz_entries := 4 * stsz_entry_count p\<rparr>))"

text \<open>Init mutates the object it is called on and returns a flag with an error message.
  The model takes the object before the call and returns the message (None for success)
  with the object after the call.\<close>

definition Init ::
  "Mp4SampleTablePieces \<Rightarrow> Recording \<Rightarrow> int \<Rightarrow> int \<Rightarrow> int \<Rightarrow> int
     \<Rightarrow> string option \<times> Mp4SampleTablePieces" where
  "Init this r entry_index offset start end =
     (let p = this\<lparr>sample_entry_index := entry_index, sample_offset := offset,
                    desired_end_90k := end\<rparr>;
          it = SampleIndexIterator_of (video_index r);
          recording_duration_90k = end_time_90k r - start_time_90k r
      in if fast_path r start end
         then init_fillers it
                (p\<lparr>sample_pos := (sample_pos p)\<lparr>br_end := sample_file_bytes r\<rparr>,
                   begin_it := it,
                   frames := video_samples r,
                   key_frames := video_sync_samples r,
                   actual_end_90k := int32_of recording_duration_90k\<rparr>)
         else if \<not> it_done it \<and> \<not> it_is_key it
         then (Some ''First frame must be a key frame.'', p)
         else (case scan start end it p of
                 (it', p') \<Rightarrow>
                   init_fillers it' (p'\<lparr>sample_pos := (sample_pos p')\<lparr>br_end := it_pos it'\<rparr>\<rparr>)))"

section \<open>The filler closures\<close>

text \<open>Each closure iterates again from begin, up to the first frame that starts at or after
  desired_end_90k, and appends to the string it is given. It returns the iterator's error,
  if any, with the string.\<close>

function stts_loop ::
  "int \<Rightarrow> SampleIndexIterator \<Rightarrow> byte list \<Rightarrow> SampleIndexIterator \<times> byte list" where
  "stts_loop desired_end it s =
     (if \<not> it_done it \<and> it_start_90k it < desired_end
      then stts_loop desired_end (Next it)
             (AppendU32 (word_of_int (it_duration_90k it)) (AppendU32 1 s))
      else (it, s))"
  by pat_completeness auto
termination
  by (relation "measure (\<lambda>(desired_end, it, s). length (rest it))")
     (auto simp: it_done_def Next_def split: list.splits)

definition FillSttsEntries :: "Mp4SampleTablePieces \<Rightarrow> byte list \<Rightarrow> string option \<times> byte list" where
  "FillSttsEntries p s =
     (case stts_loop (desired_end_90k p) (begin_it p) s of
        (it, s') \<Rightarrow> if has_error it then (Some (error_of it), s') else (None, s'))"

function stss_loop ::
  "int \<Rightarrow> SampleIndexIterator \<Rightarrow> 32 word \<Rightarrow> byte list \<Rightarrow> SampleIndexIterator \<times> byte list" where
  "stss_loop desired_end it sample_num s =
     (if \<not> it_done it \<and> it_start_90k it < desired_end
      then stss_loop desired_end (Next it) (sample_num + 1)
             (if it_is_key it then Append32 sample_num s else s)
      else (it, s))"
  by pat_completeness auto
termination
  by (relation "measure (\<lambda>(desired_end, it, sample_num, s). length (rest it))")
     (auto simp: it_done_def Next_def split: list.splits)

definition FillStssEntries :: "Mp4SampleTablePieces \<Rightarrow> byte list \<Rightarrow> string option \<times> byte list" where
  "FillStssEntries p s =
     (case stss_loop (desired_end_90k p) (begin_it p) (word_of_int (sample_offset p)) s of
        (it, s') \<Rightarrow> if has_error it then (Some (error_of it), s') else (None, s'))"

function stsz_loop ::
  "int \<Rightarrow> SampleIndexIterator \<Rightarrow> byte list \<Rightarrow> SampleIndexIterator \<times> byte list" where
  "stsz_loop desired_end it s =
     (if \<not> it_done it \<and> it_start_90k it < desired_end
      then stsz_loop desired_end (Next it) (Append32 (word_of_int (it_bytes it)) s)
      else (it, s))"
  by pat_completeness auto
termination
  by (relation "measure (\<lambda>(desired_end, it, s). length (rest it))")
     (auto simp: it_done_def Next_def split: list.splits)

definition FillStszEntries :: "Mp4SampleTablePieces \<Rightarrow> byte list \<Rightarrow> string option \<times> byte list" where
  "FillStszEntries p s =
     (case stsz_loop (desired_end_90k p) (begin_it p) s of
        (it, s') \<Rightarrow> if has_error it then (Some (error_of it), s') else (None, s'))"

text \<open>
  Modelled from the spec: FillerFileSlice is not under src/. It is constructed with a
  declared size and a generator; when first read it runs the generator on an empty buffer
  and fails if the generator fails or if the produced length differs from the declared
  size.
\<close>

datatype filler_error = FillerBackendError string | FillerWrongSize

definition FillerFileSlice_fill ::
  "int \<Rightarrow> (byte list \<Rightarrow> string option \<times> byte list) \<Rightarrow> filler_error + byte list" where
  "FillerFileSlice_fill declared fn =
     (case fn [] of
        (Some e, s) \<Rightarrow> Inl (FillerBackendError e)
      | (None, s) \<Rightarrow> if int (length s) = declared then Inr s else Inl FillerWrongSize)"

section \<open>Mp4FileBuilder\<close>

record Mp4FileBuilder =
  b_segments :: "Mp4FileSegment list"
  b_video_sample_entry :: VideoSampleEntry

definition Append ::
  "Recording \<Rightarrow> int \<Rightarrow> int \<Rightarrow> Mp4FileBuilder \<Rightarrow> Mp4FileBuilder" where
  "Append r rel_start rel_end b =
     b\<lparr>b_segments := b_segments b @
          [\<lparr>recording = r, rel_start_90k = rel_start, rel_end_90k = rel_end,
            pieces = Mp4SampleTablePieces_new,
            sample_file_slice = \<lparr>br_begin = 0, br_end = 0\<rparr>\<rparr>]\<rparr>"

definition SetSampleEntry :: "VideoSampleEntry \<Rightarrow> Mp4FileBuilder \<Rightarrow> Mp4FileBuilder" where
  "SetSampleEntry entry b = b\<lparr>b_video_sample_entry := entry\<rparr>"

text \<open>The three ways Build returns a null VirtualFile. The text of the first message is
  put together from the two ids (and a hash); the model keeps the ids.\<close>

datatype build_error =
    InconsistentSampleEntry int int
  | InitFailed string
  | EmptySegments

text \<open>The loop of Build over the segments, with the running sample_offset.\<close>

fun build_segments ::
  "int \<Rightarrow> int \<Rightarrow> Mp4FileSegment list \<Rightarrow> build_error + Mp4FileSegment list" where
  "build_segments entry_id offset [] = Inr []"
| "build_segments entry_id offset (segment # rest_segments) =
     (if video_sample_entry_id (recording segment) \<noteq> entry_id
      then Inl (InconsistentSampleEntry entry_id (video_sample_entry_id (recording segment)))
      else (case Init (pieces segment) (recording segment) 1 offset
                   (rel_start_90k segment) (rel_end_90k segment) of
              (Some msg, p) \<Rightarrow> Inl (InitFailed msg)
            | (None, p) \<Rightarrow>
                (case build_segments entry_id (offset + samples p) rest_segments of
                   Inl e \<Rightarrow> Inl e
                 | Inr done_segments \<Rightarrow> Inr (segment\<lparr>pieces := p\<rparr> # done_segments))))"

section \<open>File slices\<close>

text \<open>
  Modelled from the spec: FileSlice and FileSlices are not under src/. FileSlices is an
  ordered sequence of slices and its size is the sum of their sizes. A static or copying
  slice has the size of the bytes it holds, a filler slice the size declared for it, and a
  sample file slice the length of the byte range it was initialised with. Only the sizes
  of the slices are kept.
\<close>

datatype FileSlice =
    StaticStringPieceSlice int
  | CopyingStringPieceSlice int
  | FillerFileSlice int
  | RealFileSlice ByteRange

fun FileSlice_size :: "FileSlice \<Rightarrow> int" where
  "FileSlice_size (StaticStringPieceSlice n) = n"
| "FileSlice_size (CopyingStringPieceSlice n) = n"
| "FileSlice_size (FillerFileSlice n) = n"
| "FileSlice_size (RealFileSlice r) = ByteRange_size r"

definition FileSlices_size :: "FileSlice list \<Rightarrow> int" where
  "FileSlices_size xs = sum_list (map FileSlice_size xs)"

section \<open>The boxes\<close>

text \<open>The lengths of the three constant byte arrays.\<close>

definition sizeof_kFtypBox :: int where "sizeof_kFtypBox = 32"
definition sizeof_kVmhdAndDinfBoxes :: int where "sizeof_kVmhdAndDinfBoxes = 20 + 36"
definition sizeof_kHdlrBox :: int where "sizeof_kHdlrBox = 33"

text \<open>The sizes of the header structs, field by field.\<close>

definition sizeof_MovieBox :: int where "sizeof_MovieBox = 4 + 4"
definition sizeof_MovieHeaderBoxVersion0 :: int where
  "sizeof_MovieHeaderBoxVersion0 = 4 + 4 + 4 + 4 + 4 + 4 + 4 + 4 + 2 + 2 + 2 * 4 + 9 * 4 + 6 * 4 + 4"
definition sizeof_TrackBox :: int where "sizeof_TrackBox = 4 + 4"
definition sizeof_TrackHeaderBoxVersion0 :: int where
  "sizeof_TrackHeaderBoxVersion0 =
     4 + 4 + 4 + 4 + 4 + 4 + 4 + 4 + 2 * 4 + 2 + 2 + 2 + 2 + 9 * 4 + 4 + 4"
definition sizeof_MediaBox :: int where "sizeof_MediaBox = 4 + 4"
definition sizeof_MediaHeaderBoxVersion0 :: int where
  "sizeof_MediaHeaderBoxVersion0 = 4 + 4 + 4 + 4 + 4 + 4 + 4 + 2 + 2"
definition sizeof_MediaInformationBox :: int where "sizeof_MediaInformationBox = 4 + 4"
definition sizeof_SampleTableBox :: int where "sizeof_SampleTableBox = 4 + 4"
definition sizeof_SampleDescriptionBoxVersion0 :: int where
  "sizeof_SampleDescriptionBoxVersion0 = 4 + 4 + 4 + 4"
definition sizeof_TimeToSampleBoxVersion0 :: int where
  "sizeof_TimeToSampleBoxVersion0 = 4 + 4 + 4 + 4"
definition sizeof_SampleToChunkBoxVersion0 :: int where
  "sizeof_SampleToChunkBoxVersion0 = 4 + 4 + 4 + 4"
definition sizeof_SampleSizeBoxVersion0 :: int where
  "sizeof_SampleSizeBoxVersion0 = 4 + 4 + 4 + 4 + 4"
definition sizeof_ChunkLargeOffsetBoxVersion0 :: int where
  "sizeof_ChunkLargeOffsetBoxVersion0 = 4 + 4 + 4 + 4"
definition sizeof_SyncSampleBoxVersion0 :: int where
  "sizeof_SyncSampleBoxVersion0 = 4 + 4 + 4 + 4"
definition sizeof_LargeMediaDataBox :: int where "sizeof_LargeMediaDataBox = 4 + 4 + 8"

text \<open>The fields of the headers that the constructor writes. The size field that the
  scoped box helper patches when a box is closed is left out.\<close>

record MovieHeaderBoxVersion0 =
  mvhd_creation_time :: "32 word"
  mvhd_modification_time :: "32 word"
  mvhd_duration :: "32 word"

record TrackHeaderBoxVersion0 =
  tkhd_creation_time :: "32 word"
  tkhd_modification_time :: "32 word"
  tkhd_track_id :: "32 word"
  tkhd_duration :: "32 word"
  tkhd_width :: "32 word"
  tkhd_height :: "32 word"

record MediaHeaderBoxVersion0 =
  mdhd_creation_time :: "32 word"
  mdhd_modification_time :: "32 word"
  mdhd_duration :: "32 word"

record LargeMediaDataBox =
  largesize :: "64 word"

text \<open>Seconds since 1904-01-01 from 90 kHz units since 1970-01-01: the argument is a
  uint64_t and the result is cut to a uint32_t.\<close>

definition ToIso14496Timestamp :: "64 word \<Rightarrow> 32 word" where
  "ToIso14496Timestamp time_90k =
     ucast (time_90k div word_of_int kTimeUnitsPerSecond + 24107 * 86400)"

section \<open>Mp4File\<close>

record Mp4File =
  initial_sample_byte_pos :: int
  segments :: "Mp4FileSegment list"
  video_sample_entry :: VideoSampleEntry
  slices :: "FileSlice list"
  last_modified :: int
  moov_mvhd :: MovieHeaderBoxVersion0
  moov_trak_tkhd :: TrackHeaderBoxVersion0
  moov_trak_mdia_mdhd :: MediaHeaderBoxVersion0
  stsd_entry_count :: "32 word"
  stts_header_entry_count :: "32 word"
  stsc_header_entry_count :: "32 word"
  stsz_header_sample_count :: "32 word"
  co64_header_entry_count :: "32 word"
  stss_header_entry_count :: "32 word"
  mdat :: LargeMediaDataBox

definition slices_Append :: "FileSlice \<Rightarrow> Mp4File \<Rightarrow> Mp4File" where
  "slices_Append x f = f\<lparr>slices := slices f @ [x]\<rparr>"

text \<open>A loop that appends one slice per segment adds the slices in segment order.\<close>

definition slices_Append_each ::
  "(Mp4FileSegment \<Rightarrow> FileSlice) \<Rightarrow> Mp4File \<Rightarrow> Mp4File" where
  "slices_Append_each g f = f\<lparr>slices := slices f @ map g (segments f)\<rparr>"

text \<open>AppendStbl and AppendMoov run on the object under construction. The segments and
  the sample entry do not change while they run and are read from the object they are
  given.\<close>

definition AppendStbl :: "Mp4File \<Rightarrow> Mp4File" where
  "AppendStbl f0 =
     (let segs = segments f0;
          n = int (length segs);
          f = slices_Append (CopyingStringPieceSlice sizeof_SampleTableBox) f0;
          f = slices_Append (CopyingStringPieceSlice sizeof_SampleDescriptionBoxVersion0) f;
          f = f\<lparr>stsd_entry_count := 1\<rparr>;
          f = slices_Append
                (CopyingStringPieceSlice (int (length (vse_data (video_sample_entry f0))))) f;
          f = slices_Append (CopyingStringPieceSlice sizeof_TimeToSampleBoxVersion0) f;
          f = slices_Append_each (\<lambda>seg. FillerFileSlice (stts_entries (pieces seg))) f;
          f = f\<lparr>stts_header_entry_count :=
                  word_of_int (sum_list (map (\<lambda>seg. stts_entry_count (pieces seg)) segs))\<rparr>;
          f = slices_Append (CopyingStringPieceSlice sizeof_SampleToChunkBoxVersion0) f;
          f = f\<lparr>stsc_header_entry_count := word_of_int n\<rparr>;
          f = slices_Append (FillerFileSlice (3 * 4 * n)) f;
          f = slices_Append (CopyingStringPieceSlice sizeof_SampleSizeBoxVersion0) f;
          f = slices_Append_each (\<lambda>seg. FillerFileSlice (stsz_entries (pieces seg))) f;
          f = f\<lparr>stsz_header_sample_count :=
                  word_of_int (sum_list (map (\<lambda>seg. stsz_entry_count (pieces seg)) segs))\<rparr>;
          f = slices_Append (CopyingStringPieceSlice sizeof_ChunkLargeOffsetBoxVersion0) f;
          f = f\<lparr>co64_header_entry_count := word_of_int n\<rparr>;
          f = slices_Append (FillerFileSlice (8 * n)) f;
          f = slices_Append (CopyingStringPieceSlice sizeof_SyncSampleBoxVersion0) f;
          f = slices_Append_each (\<lambda>seg. FillerFileSlice (stss_entries (pieces seg))) f
      in f\<lparr>stss_header_entry_count :=
             word_of_int (sum_list (map (\<lambda>seg. stss_entry_count (pieces seg)) segs))\<rparr>)"

definition AppendMoov :: "32 word \<Rightarrow> 32 word \<Rightarrow> Mp4File \<Rightarrow> Mp4File" where
  "AppendMoov net_duration net_creation_ts f0 =
     (let f = slices_Append (CopyingStringPieceSlice sizeof_MovieBox) f0;
          f = slices_Append (CopyingStringPieceSlice sizeof_MovieHeaderBoxVersion0) f;
          f = moov_mvhd_update (\<lambda>header. header\<lparr>mvhd_creation_time := net_creation_ts,
                  mvhd_modification_time := net_creation_ts, mvhd_duration := net_duration\<rparr>) f;
          f = slices_Append (CopyingStringPieceSlice sizeof_TrackBox) f;
          f = slices_Append (CopyingStringPieceSlice sizeof_TrackHeaderBoxVersion0) f;
          f = moov_trak_tkhd_update (\<lambda>header. header\<lparr>tkhd_creation_time := net_creation_ts,
                  tkhd_modification_time := net_creation_ts, tkhd_track_id := 1,
                  tkhd_duration := net_duration,
                  tkhd_width := push_bit 16 (ucast (vse_width (video_sample_entry f0))),
                  tkhd_height := push_bit 16 (ucast (vse_height (video_sample_entry f0)))\<rparr>) f;
          f = slices_Append (CopyingStringPieceSlice sizeof_MediaBox) f;
          f = slices_Append (CopyingStringPieceSlice sizeof_MediaHeaderBoxVersion0) f;
          f = moov_trak_mdia_mdhd_update (\<lambda>header. header\<lparr>
                  mdhd_creation_time := net_creation_ts,
                  mdhd_modification_time := net_creation_ts, mdhd_duration := net_duration\<rparr>) f;
          f = slices_Append (StaticStringPieceSlice sizeof_kHdlrBox) f;
          f = slices_Append (CopyingStringPieceSlice sizeof_MediaInformationBox) f;
          f = slices_Append (StaticStringPieceSlice sizeof_kVmhdAndDinfBoxes) f
      in AppendStbl f)"

text \<open>The object before the body of the constructor runs: the segments and the sample
  entry are moved in, the slices are empty and the headers hold their defaults.\<close>

definition Mp4File_members :: "Mp4FileSegment list \<Rightarrow> VideoSampleEntry \<Rightarrow> Mp4File" where
  "Mp4File_members segs entry =
     \<lparr>initial_sample_byte_pos = 0, segments = segs, video_sample_entry = entry, slices = [],
      last_modified = - 1,
      moov_mvhd = \<lparr>mvhd_creation_time = 0, mvhd_modification_time = 0, mvhd_duration = 0\<rparr>,
      moov_trak_tkhd = \<lparr>tkhd_creation_time = 0, tkhd_modification_time = 0, tkhd_track_id = 0,
        tkhd_duration = 0, tkhd_width = 0, tkhd_height = 0\<rparr>,
      moov_trak_mdia_mdhd = \<lparr>mdhd_creation_time = 0, mdhd_modification_time = 0,
        mdhd_duration = 0\<rparr>,
      stsd_entry_count = 0, stts_header_entry_count = 0, stsc_header_entry_count = 0,
      stsz_header_sample_count = 0, co64_header_entry_count = 0, stss_header_entry_count = 0,
      mdat = \<lparr>largesize = 0\<rparr>\<rparr>"

text \<open>The first loop of the constructor: the duration in a uint32_t counter and the
  latest end time.\<close>

definition total_duration :: "Mp4FileSegment list \<Rightarrow> 32 word" where
  "total_duration segs =
     fold (\<lambda>seg duration. duration + word_of_int (pieces_duration_90k (pieces seg))) segs 0"

definition max_time_90k :: "Mp4FileSegment list \<Rightarrow> int" where
  "max_time_90k segs =
     fold (\<lambda>seg m. max m (start_time_90k (recording seg) + pieces_end_90k (pieces seg))) segs 0"

text \<open>The mdat part of the constructor. The size before the mdat header is taken
  first; every segment's sample file slice is initialised with the segment's byte range
  and appended; largesize is the growth since the size taken first.\<close>

definition append_mdat :: "Mp4File \<Rightarrow> Mp4File" where
  "append_mdat f0 =
     (let size_before_mdat = FileSlices_size (slices f0);
          f = slices_Append (CopyingStringPieceSlice sizeof_LargeMediaDataBox) f0;
          f = f\<lparr>initial_sample_byte_pos := FileSlices_size (slices f)\<rparr>;
          f = f\<lparr>segments :=
                  map (\<lambda>seg. seg\<lparr>sample_file_slice := sample_pos (pieces seg)\<rparr>) (segments f)\<rparr>;
          f = slices_Append_each (\<lambda>seg. RealFileSlice (sample_file_slice seg)) f
      in f\<lparr>mdat := (mdat f)\<lparr>largesize :=
               word_of_int (FileSlices_size (slices f) - size_before_mdat)\<rparr>\<rparr>)"

text \<open>The constructor, without the etag.\<close>

definition Mp4File_new :: "Mp4FileSegment list \<Rightarrow> VideoSampleEntry \<Rightarrow> Mp4File" where
  "Mp4File_new segs entry =
     (let f = Mp4File_members segs entry;
          duration = total_duration segs;
          max_time = max_time_90k segs;
          f = f\<lparr>last_modified := max_time div kTimeUnitsPerSecond\<rparr>;
          net_duration = duration;
          net_creation_ts = ToIso14496Timestamp (word_of_int max_time);
          f = slices_Append (StaticStringPieceSlice sizeof_kFtypBox) f;
          f = AppendMoov net_duration net_creation_ts f
      in append_mdat f)"

fun co64_loop :: "int \<Rightarrow> Mp4FileSegment list \<Rightarrow> byte list \<Rightarrow> byte list" where
  "co64_loop pos [] s = s"
| "co64_loop pos (seg # segs) s =
     co64_loop (pos + ByteRange_size (sample_file_slice seg)) segs (AppendU64 (word_of_int pos) s)"

definition FillCo64Entries :: "Mp4File \<Rightarrow> byte list \<Rightarrow> byte list" where
  "FillCo64Entries f s = co64_loop (initial_sample_byte_pos f) (segments f) s"

definition Build :: "Mp4FileBuilder \<Rightarrow> build_error + Mp4File" where
  "Build b =
     (case build_segments (vse_id (b_video_sample_entry b)) 1 (b_segments b) of
        Inl e \<Rightarrow> Inl e
      | Inr segs \<Rightarrow>
          if segs = [] then Inl EmptySegments
          else Inr (Mp4File_new segs (b_video_sample_entry b)))"

section \<open>Notions used to state the properties\<close>

text \<open>All positions of an iterator, from where it stands to the end of the index.\<close>

function positions :: "SampleIndexIterator \<Rightarrow> SampleIndexIterator list" where
  "positions it = (if it_done it then [] else it # positions (Next it))"
  by pat_completeness auto
termination
  by (relation "measure (\<lambda>it. length (rest it))")
     (auto simp: it_done_def Next_def split: list.splits)

text \<open>The positions a filler closure visits from \<open>it\<close>: those before the first frame that
  starts at or after the desired end; and the position where it stops.\<close>

function visited :: "int \<Rightarrow> SampleIndexIterator \<Rightarrow> SampleIndexIterator list" where
  "visited desired_end it =
     (if \<not> it_done it \<and> it_start_90k it < desired_end
      then it # visited desired_end (Next it) else [])"
  by pat_completeness auto
termination
  by (relation "measure (\<lambda>(desired_end, it). length (rest it))")
     (auto simp: it_done_def Next_def split: list.splits)

function stop_at :: "int \<Rightarrow> SampleIndexIterator \<Rightarrow> SampleIndexIterator" where
  "stop_at desired_end it =
     (if \<not> it_done it \<and> it_start_90k it < desired_end
      then stop_at desired_end (Next it) else it)"
  by pat_completeness auto
termination
  by (relation "measure (\<lambda>(desired_end, it). length (rest it))")
     (auto simp: it_done_def Next_def split: list.splits)

text \<open>The recording's counts agree with the index for a desired end: video_samples and
  video_sync_samples are the numbers of frames and of key frames that start before it,
  and the index decodes without error up to there.\<close>

definition metadata_agrees :: "Recording \<Rightarrow> int \<Rightarrow> bool" where
  "metadata_agrees r desired_end =
     (let it = SampleIndexIterator_of (video_index r)
      in int (length (visited desired_end it)) = video_samples r \<and>
         int (length (filter it_is_key (visited desired_end it))) = video_sync_samples r \<and>
         \<not> has_error (stop_at desired_end it))"

text \<open>The invariant of the slow path's loop and what it gives at the exit: the frames
  counted since the last start candidate are the ones a filler visits from there.\<close>

definition scan_inv :: "int \<Rightarrow> SampleIndexIterator \<Rightarrow> Mp4SampleTablePieces \<Rightarrow> bool" where
  "scan_inv e it p = (\<exists>pre. visited e (begin_it p) = pre @ visited e it \<and>
      (has_error (stop_at e (begin_it p)) \<longrightarrow> has_error (stop_at e it)) \<and>
      int (length pre) = frames p \<and> int (length (filter it_is_key pre)) = key_frames p)"

definition scan_post :: "int \<Rightarrow> SampleIndexIterator \<times> Mp4SampleTablePieces \<Rightarrow> bool" where
  "scan_post e res = (case res of (it', p') \<Rightarrow>
      int (length (visited e (begin_it p'))) = frames p' \<and>
      int (length (filter it_is_key (visited e (begin_it p')))) = key_frames p' \<and>
      (has_error (stop_at e (begin_it p')) \<longrightarrow> has_error it'))"

text \<open>Running sums: the offsets of chunks of the given sizes laid out from \<open>pos\<close>.\<close>

fun chunk_offsets :: "int \<Rightarrow> int list \<Rightarrow> int list" where
  "chunk_offsets pos [] = []"
| "chunk_offsets pos (n # ns) = pos # chunk_offsets (pos + n) ns"

text \<open>The positions the slow path's loop looks at: up to and including the first frame that
  starts at or after the end of the window.\<close>

function scanned :: "int \<Rightarrow> SampleIndexIterator \<Rightarrow> SampleIndexIterator list" where
  "scanned e it =
     (if it_done it then [] else if e \<le> it_start_90k it then [it]
      else it # scanned e (Next it))"
  by pat_completeness auto
termination
  by (relation "measure (\<lambda>(e, it). length (rest it))")
     (auto simp: it_done_def Next_def split: list.splits)

text \<open>A start candidate: a key frame that starts at or before the requested start.\<close>

definition start_candidate :: "int \<Rightarrow> SampleIndexIterator \<Rightarrow> bool" where
  "start_candidate start it = (it_is_key it \<and> it_start_90k it \<le> start)"

text \<open>The sample numbers the stss closure of a segment emits: sample_offset + i for each
  frame it visits, at position i counted from begin, that is a key frame. The closure
  visits the frames from begin that start before desired_end_90k, which need not be all
  of the frames Init counted.\<close>

definition emitted_sample_numbers :: "Mp4SampleTablePieces \<Rightarrow> int list" where
  "emitted_sample_numbers p =
     (let vis = visited (desired_end_90k p) (begin_it p)
      in map (\<lambda>i. sample_offset p + int i) (filter (\<lambda>i. it_is_key (vis ! i)) [0..<length vis]))"

text \<open>The same numbers, counted along the list of visited frames.\<close>

fun key_sample_numbers :: "int \<Rightarrow> SampleIndexIterator list \<Rightarrow> int list" where
  "key_sample_numbers n [] = []"
| "key_sample_numbers n (x # xs) =
     (if it_is_key x then [n] else []) @ key_sample_numbers (n + 1) xs"

text \<open>The data model's invariant of a recording that the fast path relies on: the index
  decodes, without error, to exactly video_samples frames.\<close>

definition decodes_to_video_samples :: "Recording \<Rightarrow> bool" where
  "decodes_to_video_samples r =
     (vi_error (video_index r) = None \<and>
      int (length (vi_frames (video_index r))) = video_samples r)"

section \<open>Example inputs\<close>

text \<open>A recording of three frames, the first and the last of them key frames.\<close>

definition ex_index :: video_index where
  "ex_index = \<lparr>vi_frames =
      [\<lparr>f_duration_90k = 100, f_bytes = 1000, f_is_key = True\<rparr>,
       \<lparr>f_duration_90k = 100, f_bytes = 10, f_is_key = False\<rparr>,
       \<lparr>f_duration_90k = 100, f_bytes = 1050, f_is_key = True\<rparr>],
     vi_error = None\<rparr>"

definition ex_recording :: Recording where
  "ex_recording = \<lparr>start_time_90k = 9000000, end_time_90k = 9000300, sample_file_bytes = 2060,
     video_samples = 3, video_sync_samples = 2, video_sample_entry_id = 1, video_index = ex_index\<rparr>"

definition ex_entry :: VideoSampleEntry where
  "ex_entry = \<lparr>vse_id = 1, vse_width = 1920, vse_height = 1080, vse_data = [0, 0, 0, 0]\<rparr>"

text \<open>A builder with the whole recording, then its window [150, 200).\<close>

definition ex_builder :: Mp4FileBuilder where
  "ex_builder = Append ex_recording 150 200 (Append ex_recording 0 300
     \<lparr>b_segments = [], b_video_sample_entry = ex_entry\<rparr>)"

definition ex_pieces_whole :: Mp4SampleTablePieces where
  "ex_pieces_whole =
     \<lparr>begin_it = SampleIndexIterator_of ex_index, sample_pos = \<lparr>br_begin = 0, br_end = 2060\<rparr>,
      frames = 3, key_frames = 2, actual_end_90k = 300, desired_end_90k = 300,
      sample_offset = 1, sample_entry_index = 1,
      stts_entries = 24, stss_entries = 8, stsz_entries = 12\<rparr>"

definition ex_pieces_window :: Mp4SampleTablePieces where
  "ex_pieces_window =
     \<lparr>begin_it = SampleIndexIterator_of ex_index, sample_pos = \<lparr>br_begin = 0, br_end = 1010\<rparr>,
      frames = 2, key_frames = 1, actual_end_90k = 200, desired_end_90k = 200,
      sample_offset = 4, sample_entry_index = 1,
      stts_entries = 16, stss_entries = 4, stsz_entries = 8\<rparr>"

text \<open>The segments as Build leaves them, and the file it constructs.\<close>

definition ex_segments :: "Mp4FileSegment list" where
  "ex_segments =
     [\<lparr>recording = ex_recording, rel_start_90k = 0, rel_end_90k = 300,
       pieces = ex_pieces_whole, sample_file_slice = \<lparr>br_begin = 0, br_end = 0\<rparr>\<rparr>,
      \<lparr>recording = ex_recording, rel_start_90k = 150, rel_end_90k = 200,
       pieces = ex_pieces_window, sample_file_slice = \<lparr>br_begin = 0, br_end = 0\<rparr>\<rparr>]"

definition ex_file :: Mp4File where
  "ex_file = Mp4File_new ex_segments ex_entry"

text \<open>A recording whose last frame has no duration, as long as its first frame.\<close>

definition ex_recording_zero_tail :: Recording where
  "ex_recording_zero_tail = \<lparr>start_time_90k = 9000000, end_time_90k = 9000100,
     sample_file_bytes = 15, video_samples = 2, video_sync_samples = 1,
     video_sample_entry_id = 1,
     video_index = \<lparr>vi_frames =
        [\<lparr>f_duration_90k = 100, f_bytes = 10, f_is_key = True\<rparr>,
         \<lparr>f_duration_90k = 0, f_bytes = 5, f_is_key = False\<rparr>],
       vi_error = None\<rparr>\<rparr>"

text \<open>The same with a key frame as its last frame, and a builder asked for the whole
  of it.\<close>

definition ex_recording_zero_tail_keys :: Recording where
  "ex_recording_zero_tail_keys = \<lparr>start_time_90k = 9000000, end_time_90k = 9000100,
     sample_file_bytes = 15, video_samples = 2, video_sync_samples = 2,
     video_sample_entry_id = 1,
     video_index = \<lparr>vi_frames =
        [\<lparr>f_duration_90k = 100, f_bytes = 10, f_is_key = True\<rparr>,
         \<lparr>f_duration_90k = 0, f_bytes = 5, f_is_key = True\<rparr>],
       vi_error = None\<rparr>\<rparr>"

definition ex_builder_zero_tail_keys :: Mp4FileBuilder where
  "ex_builder_zero_tail_keys = Append ex_recording_zero_tail_keys 0 100
     \<lparr>b_segments = [], b_video_sample_entry = ex_entry\<rparr>"

text \<open>A recording whose third frame starts after the largest int32_t time.\<close>

definition ex_recording_past_int32 :: Recording where
  "ex_recording_past_int32 = \<lparr>start_time_90k = 0, end_time_90k = 2147483846,
     sample_file_bytes = 30, video_samples = 3, video_sync_samples = 1,
     video_sample_entry_id = 1,
     video_index = \<lparr>vi_frames =
        [\<lparr>f_duration_90k = 2147483646, f_bytes = 10, f_is_key = True\<rparr>,
         \<lparr>f_duration_90k = 100, f_bytes = 10, f_is_key = False\<rparr>,
         \<lparr>f_duration_90k = 100, f_bytes = 10, f_is_key = False\<rparr>],
       vi_error = None\<rparr>\<rparr>"

text \<open>A recording that does not start with a key frame.\<close>

definition ex_recording_not_keyed :: Recording where
  "ex_recording_not_keyed = \<lparr>start_time_90k = 9000000, end_time_90k = 9000200,
     sample_file_bytes = 30, video_samples = 2, video_sync_samples = 1,
     video_sample_entry_id = 1,
     video_index = \<lparr>vi_frames =
        [\<lparr>f_duration_90k = 100, f_bytes = 10, f_is_key = False\<rparr>,
         \<lparr>f_duration_90k = 100, f_bytes = 20, f_is_key = True\<rparr>],
       vi_error = None\<rparr>\<rparr>"

definition ex_builder_not_keyed :: Mp4FileBuilder where
  "ex_builder_not_keyed = Append ex_recording_not_keyed 0 200
     \<lparr>b_segments = [], b_video_sample_entry = ex_entry\<rparr>"

definition ex_builder_not_keyed_window :: Mp4FileBuilder where
  "ex_builder_not_keyed_window = Append ex_recording_not_keyed 50 200 (Append ex_recording 0 300
     \<lparr>b_segments = [], b_video_sample_entry = ex_entry\<rparr>)"

text \<open>A recording of one long frame.\<close>

definition ex_recording_long :: Recording where
  "ex_recording_long = \<lparr>start_time_90k = 0, end_time_90k = 2147483647,
     sample_file_bytes = 10, video_samples = 1, video_sync_samples = 1,
     video_sample_entry_id = 1,
     video_index = \<lparr>vi_frames =
        [\<lparr>f_duration_90k = 2147483647, f_bytes = 10, f_is_key = True\<rparr>], vi_error = None\<rparr>\<rparr>"

definition ex_pieces_long :: Mp4SampleTablePieces where
  "ex_pieces_long =
     \<lparr>begin_it = SampleIndexIterator_of (video_index ex_recording_long),
      sample_pos = \<lparr>br_begin = 0, br_end = 10\<rparr>,
      frames = 1, key_frames = 1, actual_end_90k = 2147483647, desired_end_90k = 2147483647,
      sample_offset = 1, sample_entry_index = 1,
      stts_entries = 8, stss_entries = 4, stsz_entries = 4\<rparr>"

definition ex_segment_long :: Mp4FileSegment where
  "ex_segment_long = \<lparr>recording = ex_recording_long, rel_start_90k = 0,
     rel_end_90k = 2147483647, pieces = ex_pieces_long,
     sample_file_slice = \<lparr>br_begin = 0, br_end = 0\<rparr>\<rparr>"

section \<open>Evaluating the loops\<close>

declare positions.simps [simp del] visited.simps [simp del] stop_at.simps [simp del]
  scan.simps [simp del] stts_loop.simps [simp del] stss_loop.simps [simp del]
  stsz_loop.simps [simp del] scanned.simps [simp del]

lemmas iterator_defs = SampleIndexIterator_of_def SampleIndexIterator_default_def it_done_def
  has_error_def error_of_def Next_def it_start_90k_def it_pos_def it_duration_90k_def
  it_bytes_def it_is_key_def it_end_90k_def int32_of_def

lemmas init_defs = Init_def fast_path_def init_fillers_def new_start_candidate_def
  process_frame_def stts_entry_count_def stss_entry_count_def stsz_entry_count_def
  Mp4SampleTablePieces_new_def int32_of_def Let_def

lemma ex_Init_whole:
  "Init Mp4SampleTablePieces_new ex_recording 1 1 0 300 = (None, ex_pieces_whole)"
  by (simp add: init_defs iterator_defs ex_recording_def ex_index_def ex_pieces_whole_def)

lemma ex_Init_window:
  "Init Mp4SampleTablePieces_new ex_recording 1 4 150 200 = (None, ex_pieces_window)"
  by (simp add: init_defs iterator_defs scan.simps ex_recording_def ex_index_def
      ex_pieces_window_def)

lemma ex_ids:
  "vse_id ex_entry = 1" "video_sample_entry_id ex_recording = 1"
  "samples ex_pieces_whole = 3" "samples ex_pieces_window = 2"
  by (simp_all add: ex_entry_def ex_recording_def samples_def ex_pieces_whole_def
      ex_pieces_window_def)

lemma ex_Build: "Build ex_builder = Inr ex_file"
  by (simp add: Build_def ex_builder_def Append_def ex_ids ex_Init_whole ex_Init_window
      ex_file_def ex_segments_def)

section \<open>The constructor of Mp4File\<close>

lemma segments_AppendStbl: "segments (AppendStbl f) = segments f"
  by (simp add: AppendStbl_def Let_def slices_Append_def slices_Append_each_def)

lemma segments_AppendMoov: "segments (AppendMoov d c f) = segments f"
  by (simp add: AppendMoov_def Let_def slices_Append_def segments_AppendStbl)

lemma headers_AppendStbl:
  "moov_mvhd (AppendStbl f) = moov_mvhd f"
  "moov_trak_tkhd (AppendStbl f) = moov_trak_tkhd f"
  "moov_trak_mdia_mdhd (AppendStbl f) = moov_trak_mdia_mdhd f"
  by (simp_all add: AppendStbl_def Let_def slices_Append_def slices_Append_each_def)

lemma headers_AppendMoov:
  "mvhd_duration (moov_mvhd (AppendMoov d c f)) = d"
  "tkhd_duration (moov_trak_tkhd (AppendMoov d c f)) = d"
  "mdhd_duration (moov_trak_mdia_mdhd (AppendMoov d c f)) = d"
  "mvhd_creation_time (moov_mvhd (AppendMoov d c f)) = c"
  "mvhd_modification_time (moov_mvhd (AppendMoov d c f)) = c"
  "tkhd_creation_time (moov_trak_tkhd (AppendMoov d c f)) = c"
  "tkhd_modification_time (moov_trak_tkhd (AppendMoov d c f)) = c"
  "mdhd_creation_time (moov_trak_mdia_mdhd (AppendMoov d c f)) = c"
  "mdhd_modification_time (moov_trak_mdia_mdhd (AppendMoov d c f)) = c"
  by (simp_all add: AppendMoov_def Let_def slices_Append_def headers_AppendStbl)

lemma headers_append_mdat:
  "moov_mvhd (append_mdat f) = moov_mvhd f"
  "moov_trak_tkhd (append_mdat f) = moov_trak_tkhd f"
  "moov_trak_mdia_mdhd (append_mdat f) = moov_trak_mdia_mdhd f"
  by (simp_all add: append_mdat_def Let_def slices_Append_def slices_Append_each_def)

lemma FileSlices_size_append:
  "FileSlices_size (xs @ ys) = FileSlices_size xs + FileSlices_size ys"
  by (simp add: FileSlices_size_def)

lemma append_mdat_facts:
  "segments (append_mdat f) =
     map (\<lambda>seg. seg\<lparr>sample_file_slice := sample_pos (pieces seg)\<rparr>) (segments f)"
  "initial_sample_byte_pos (append_mdat f) = FileSlices_size (slices f) + sizeof_LargeMediaDataBox"
  "slices (append_mdat f) = slices f @ [CopyingStringPieceSlice sizeof_LargeMediaDataBox]
       @ map (\<lambda>seg. RealFileSlice (sample_pos (pieces seg))) (segments f)"
  "largesize (mdat (append_mdat f)) = word_of_int (sizeof_LargeMediaDataBox +
       sum_list (map (\<lambda>seg. ByteRange_size (sample_pos (pieces seg))) (segments f)))"
  by (simp_all add: append_mdat_def Let_def slices_Append_def slices_Append_each_def
      FileSlices_size_def comp_def)

text \<open>The file is the moov part, built over the unchanged segments, followed by the
  mdat part.\<close>

lemma Mp4File_new_eq:
  "\<exists>f. Mp4File_new segs entry = append_mdat f \<and> segments f = segs \<and>
     mvhd_duration (moov_mvhd f) = total_duration segs \<and>
     tkhd_duration (moov_trak_tkhd f) = total_duration segs \<and>
     mdhd_duration (moov_trak_mdia_mdhd f) = total_duration segs \<and>
     mvhd_creation_time (moov_mvhd f) = ToIso14496Timestamp (word_of_int (max_time_90k segs)) \<and>
     mvhd_modification_time (moov_mvhd f) = ToIso14496Timestamp (word_of_int (max_time_90k segs)) \<and>
     tkhd_creation_time (moov_trak_tkhd f) = ToIso14496Timestamp (word_of_int (max_time_90k segs)) \<and>
     tkhd_modification_time (moov_trak_tkhd f) = ToIso14496Timestamp (word_of_int (max_time_90k segs)) \<and>
     mdhd_creation_time (moov_trak_mdia_mdhd f) = ToIso14496Timestamp (word_of_int (max_time_90k segs)) \<and>
     mdhd_modification_time (moov_trak_mdia_mdhd f) = ToIso14496Timestamp (word_of_int (max_time_90k segs))"
  unfolding Mp4File_new_def Let_def
  by (intro exI conjI, rule refl)
    (simp_all add: segments_AppendMoov headers_AppendMoov slices_Append_def Mp4File_members_def)

lemma Mp4File_new_segments:
  "segments (Mp4File_new segs entry) =
     map (\<lambda>seg. seg\<lparr>sample_file_slice := sample_pos (pieces seg)\<rparr>) segs"
  using Mp4File_new_eq [of segs entry] by (auto simp: append_mdat_facts)

lemma sum_sample_file_slices:
  "sum_list (map (\<lambda>seg. ByteRange_size (sample_file_slice seg)) (segments (Mp4File_new segs entry)))
     = sum_list (map (\<lambda>seg. ByteRange_size (sample_pos (pieces seg))) segs)"
  by (simp add: Mp4File_new_segments comp_def)

lemma fold_add_word_of_int:
  "fold (\<lambda>seg duration. duration + word_of_int (g seg)) segs (d :: 32 word)
     = d + word_of_int (sum_list (map g segs))"
  by (induction segs arbitrary: d) (simp_all add: algebra_simps)

lemma total_duration_sum:
  "total_duration segs =
     word_of_int (sum_list (map (\<lambda>seg. pieces_duration_90k (pieces seg)) segs))"
  by (simp add: total_duration_def fold_add_word_of_int)

lemma fold_max_ge: "(m :: int) \<le> fold (\<lambda>seg m. max m (g seg)) segs m"
proof (induction segs arbitrary: m)
  case Nil
  show ?case by simp
next
  case (Cons seg segs)
  have "m \<le> max m (g seg)" by simp
  also have "\<dots> \<le> fold (\<lambda>seg m. max m (g seg)) segs (max m (g seg))" by (rule Cons.IH)
  finally show ?case by simp
qed

lemma max_time_90k_nonneg: "0 \<le> max_time_90k segs"
  unfolding max_time_90k_def by (rule fold_max_ge)

lemma uint_ucast_64_32: "uint (ucast (w :: 64 word) :: 32 word) = uint w mod 2 ^ 32"
  by (simp add: unsigned_ucast_eq take_bit_eq_mod)

lemma mod_mod_64_32: "(x :: int) mod 2 ^ 64 mod 2 ^ 32 = x mod 2 ^ 32"
  by (rule mod_mod_cancel) simp

lemma uint_ToIso14496Timestamp:
  "uint (ToIso14496Timestamp (word_of_int t)) =
     ((t mod 2 ^ 64) div 90000 + 24107 * 86400) mod 2 ^ 32"
  by (simp add: ToIso14496Timestamp_def kTimeUnitsPerSecond_def uint_ucast_64_32)
    (simp add: uint_word_ariths uint_div uint_word_of_int mod_mod_64_32)

lemma Mp4File_new_mdat:
  "largesize (mdat (Mp4File_new segs entry))
     = word_of_int (16 + sum_list (map (\<lambda>seg. ByteRange_size (sample_pos (pieces seg))) segs))"
  "FileSlices_size (slices (Mp4File_new segs entry))
       - initial_sample_byte_pos (Mp4File_new segs entry)
     = sum_list (map (\<lambda>seg. ByteRange_size (sample_pos (pieces seg))) segs)"
proof -
  obtain f where f: "Mp4File_new segs entry = append_mdat f" "segments f = segs"
    using Mp4File_new_eq [of segs entry] by blast
  show "largesize (mdat (Mp4File_new segs entry))
      = word_of_int (16 + sum_list (map (\<lambda>seg. ByteRange_size (sample_pos (pieces seg))) segs))"
    using f by (simp add: append_mdat_facts sizeof_LargeMediaDataBox_def)
  show "FileSlices_size (slices (Mp4File_new segs entry))
        - initial_sample_byte_pos (Mp4File_new segs entry)
      = sum_list (map (\<lambda>seg. ByteRange_size (sample_pos (pieces seg))) segs)"
    using f by (simp add: append_mdat_facts FileSlices_size_append)
      (simp add: FileSlices_size_def comp_def)
qed

lemma ex_segments_values:
  "map (\<lambda>seg. pieces_duration_90k (pieces seg)) ex_segments = [300, 200]"
  "map (\<lambda>seg. start_time_90k (recording seg) + pieces_end_90k (pieces seg)) ex_segments
     = [9000300, 9000200]"
  "map (\<lambda>seg. ByteRange_size (sample_pos (pieces seg))) ex_segments = [2060, 1010]"
  by (simp_all add: ex_segments_def ex_pieces_whole_def ex_pieces_window_def ex_recording_def
      pieces_duration_90k_def pieces_end_90k_def ByteRange_size_def iterator_defs)

lemma ex_max_time_90k: "max_time_90k ex_segments = 9000300"
  by (simp add: max_time_90k_def ex_segments_def ex_pieces_whole_def ex_pieces_window_def
      ex_recording_def pieces_end_90k_def)

text \<open>
  C8. The duration written into the mvhd, tkhd and mdhd headers of a constructed Mp4File is
  one value: the sum of the segments' pieces.duration_90k() accumulated in the unsigned
  32-bit counter, that is the sum of the per-segment durations modulo 2^32.
\<close>

theorem header_durations_sum_mod_2_32:
  "mvhd_duration (moov_mvhd (Mp4File_new segs entry)) = total_duration segs \<and>
   tkhd_duration (moov_trak_tkhd (Mp4File_new segs entry)) = total_duration segs \<and>
   mdhd_duration (moov_trak_mdia_mdhd (Mp4File_new segs entry)) = total_duration segs \<and>
   uint (total_duration segs) =
     sum_list (map (\<lambda>seg. pieces_duration_90k (pieces seg)) segs) mod 2 ^ 32"
proof -
  obtain f where "Mp4File_new segs entry = append_mdat f"
    "mvhd_duration (moov_mvhd f) = total_duration segs"
    "tkhd_duration (moov_trak_tkhd f) = total_duration segs"
    "mdhd_duration (moov_trak_mdia_mdhd f) = total_duration segs"
    using Mp4File_new_eq [of segs entry] by blast
  then show ?thesis
    by (simp add: headers_append_mdat total_duration_sum uint_word_of_int)
qed

theorem header_durations_sum_mod_2_32_witness:
  "mvhd_duration (moov_mvhd (Mp4File_new ex_segments ex_entry)) = 500 \<and>
   tkhd_duration (moov_trak_tkhd (Mp4File_new ex_segments ex_entry)) = 500 \<and>
   mdhd_duration (moov_trak_mdia_mdhd (Mp4File_new ex_segments ex_entry)) = 500"
  using header_durations_sum_mod_2_32 [of ex_segments ex_entry]
  by (simp add: total_duration_sum ex_segments_values)

text \<open>Three segments of 2^31 - 1 ticks each: the headers hold 2147483645, not the sum
  6442450941.\<close>

lemma header_duration_wraps:
  "uint (mvhd_duration (moov_mvhd
     (Mp4File_new [ex_segment_long, ex_segment_long, ex_segment_long] ex_entry))) = 2147483645"
proof -
  have "pieces_duration_90k (pieces ex_segment_long) = 2147483647"
    by (simp add: ex_segment_long_def ex_pieces_long_def pieces_duration_90k_def iterator_defs)
  then have "total_duration [ex_segment_long, ex_segment_long, ex_segment_long]
      = word_of_int 6442450941"
    by (simp add: total_duration_sum)
  moreover obtain f where
    "Mp4File_new [ex_segment_long, ex_segment_long, ex_segment_long] ex_entry = append_mdat f"
    "mvhd_duration (moov_mvhd f) = total_duration [ex_segment_long, ex_segment_long, ex_segment_long]"
    using Mp4File_new_eq [of "[ex_segment_long, ex_segment_long, ex_segment_long]" ex_entry]
    by blast
  ultimately show ?thesis
    by (simp add: headers_append_mdat uint_word_of_int)
qed

text \<open>
  C9. The creation_time and modification_time fields of the mvhd, tkhd and mdhd headers of
  a constructed Mp4File are all the same value: what ToIso14496Timestamp computes from
  max_time_90k, that is max_time_90k / 90000 + 24107 * 86400 cut to 32 bits (max_time_90k,
  never negative, being passed as a 64-bit unsigned value).
\<close>

theorem header_times_are_one_timestamp:
  "mvhd_creation_time (moov_mvhd (Mp4File_new segs entry))
     = ToIso14496Timestamp (word_of_int (max_time_90k segs)) \<and>
   mvhd_modification_time (moov_mvhd (Mp4File_new segs entry))
     = ToIso14496Timestamp (word_of_int (max_time_90k segs)) \<and>
   tkhd_creation_time (moov_trak_tkhd (Mp4File_new segs entry))
     = ToIso14496Timestamp (word_of_int (max_time_90k segs)) \<and>
   tkhd_modification_time (moov_trak_tkhd (Mp4File_new segs entry))
     = ToIso14496Timestamp (word_of_int (max_time_90k segs)) \<and>
   mdhd_creation_time (moov_trak_mdia_mdhd (Mp4File_new segs entry))
     = ToIso14496Timestamp (word_of_int (max_time_90k segs)) \<and>
   mdhd_modification_time (moov_trak_mdia_mdhd (Mp4File_new segs entry))
     = ToIso14496Timestamp (word_of_int (max_time_90k segs)) \<and>
   0 \<le> max_time_90k segs \<and>
   uint (ToIso14496Timestamp (word_of_int (max_time_90k segs)))
     = ((max_time_90k segs mod 2 ^ 64) div 90000 + 24107 * 86400) mod 2 ^ 32"
proof -
  obtain f where "Mp4File_new segs entry = append_mdat f"
    "mvhd_creation_time (moov_mvhd f) = ToIso14496Timestamp (word_of_int (max_time_90k segs))"
    "mvhd_modification_time (moov_mvhd f) = ToIso14496Timestamp (word_of_int (max_time_90k segs))"
    "tkhd_creation_time (moov_trak_tkhd f) = ToIso14496Timestamp (word_of_int (max_time_90k segs))"
    "tkhd_modification_time (moov_trak_tkhd f) = ToIso14496Timestamp (word_of_int (max_time_90k segs))"
    "mdhd_creation_time (moov_trak_mdia_mdhd f) = ToIso14496Timestamp (word_of_int (max_time_90k segs))"
    "mdhd_modification_time (moov_trak_mdia_mdhd f) = ToIso14496Timestamp (word_of_int (max_time_90k segs))"
    using Mp4File_new_eq [of segs entry] by blast
  then show ?thesis
    by (simp add: headers_append_mdat max_time_90k_nonneg uint_ToIso14496Timestamp)
qed

theorem header_times_are_one_timestamp_witness:
  "uint (mvhd_creation_time (moov_mvhd (Mp4File_new ex_segments ex_entry))) = 2082844900 \<and>
   uint (mdhd_modification_time (moov_trak_mdia_mdhd (Mp4File_new ex_segments ex_entry)))
     = 2082844900"
  using header_times_are_one_timestamp [of ex_segments ex_entry]
  by (simp add: ex_max_time_90k)

text \<open>
  C1, as amended. The largesize field of the mdat header of a constructed Mp4File is the
  number of bytes from the start of the mdat header to the end of the virtual file: the
  16 bytes of the header plus the sum of the segments' sample_file_slice sizes, as a
  64-bit value. The bytes between the end of the header and the end of the file are the
  sum of the slice sizes alone.
\<close>

theorem mdat_largesize_includes_header:
  "largesize (mdat (Mp4File_new segs entry)) =
     word_of_int (16 + sum_list (map (\<lambda>seg. ByteRange_size (sample_file_slice seg))
        (segments (Mp4File_new segs entry)))) \<and>
   FileSlices_size (slices (Mp4File_new segs entry))
       - initial_sample_byte_pos (Mp4File_new segs entry) =
     sum_list (map (\<lambda>seg. ByteRange_size (sample_file_slice seg))
        (segments (Mp4File_new segs entry)))"
  by (simp only: sum_sample_file_slices Mp4File_new_mdat)

theorem mdat_largesize_includes_header_witness:
  "largesize (mdat (Mp4File_new ex_segments ex_entry)) = 3086"
  using mdat_largesize_includes_header [of ex_segments ex_entry]
  by (simp add: sum_sample_file_slices ex_segments_values)

text \<open>The claim as written fails on the example file: largesize is 3086 there, and 3070
  bytes follow the mdat header.\<close>

theorem mdat_largesize_counterexample:
  "largesize (mdat ex_file) \<noteq>
     word_of_int (FileSlices_size (slices ex_file) - initial_sample_byte_pos ex_file)"
  by (simp add: ex_file_def Mp4File_new_mdat ex_segments_values)

section \<open>The co64 table\<close>

lemma AppendU64_append: "AppendU64 v s = s @ AppendU64 v []"
  by (simp add: AppendU64_def)

lemma co64_loop_eq:
  "co64_loop pos segs s = s @ concat (map (\<lambda>v. AppendU64 (word_of_int v) [])
     (chunk_offsets pos (map (\<lambda>seg. ByteRange_size (sample_file_slice seg)) segs)))"
proof (induction segs arbitrary: pos s)
  case Nil
  show ?case by simp
next
  case (Cons seg segs)
  show ?case
    by (simp add: Cons.IH) (subst AppendU64_append, simp)
qed

lemma length_chunk_offsets [simp]: "length (chunk_offsets pos ns) = length ns"
  by (induction ns arbitrary: pos) simp_all

lemma chunk_offsets_first: "ns \<noteq> [] \<Longrightarrow> chunk_offsets pos ns ! 0 = pos"
  by (cases ns) simp_all

lemma chunk_offsets_step:
  "Suc i < length ns \<Longrightarrow> chunk_offsets pos ns ! Suc i - chunk_offsets pos ns ! i = ns ! i"
proof (induction ns arbitrary: pos i)
  case Nil
  then show ?case by simp
next
  case (Cons n ns)
  show ?case
  proof (cases i)
    case 0
    with Cons.prems show ?thesis by (cases ns) simp_all
  next
    case (Suc j)
    with Cons.prems have "Suc j < length ns" by simp
    from Cons.IH [OF this, of "pos + n"] Suc show ?thesis by simp
  qed
qed

lemma Mp4File_new_layout:
  "\<exists>before. slices (Mp4File_new segs entry) =
       before @ CopyingStringPieceSlice sizeof_LargeMediaDataBox #
         map (\<lambda>seg. RealFileSlice (sample_file_slice seg)) (segments (Mp4File_new segs entry)) \<and>
     initial_sample_byte_pos (Mp4File_new segs entry) =
       FileSlices_size (before @ [CopyingStringPieceSlice sizeof_LargeMediaDataBox])"
proof -
  obtain f where f: "Mp4File_new segs entry = append_mdat f" "segments f = segs"
    using Mp4File_new_eq [of segs entry] by blast
  have "slices (Mp4File_new segs entry) =
       slices f @ CopyingStringPieceSlice sizeof_LargeMediaDataBox #
         map (\<lambda>seg. RealFileSlice (sample_file_slice seg)) (segments (Mp4File_new segs entry))"
    by (simp add: Mp4File_new_segments comp_def) (simp add: f append_mdat_facts)
  moreover have "initial_sample_byte_pos (Mp4File_new segs entry) =
       FileSlices_size (slices f @ [CopyingStringPieceSlice sizeof_LargeMediaDataBox])"
    by (simp add: f append_mdat_facts FileSlices_size_append) (simp add: FileSlices_size_def)
  ultimately show ?thesis by blast
qed

lemmas sizeof_defs = sizeof_kFtypBox_def sizeof_kVmhdAndDinfBoxes_def sizeof_kHdlrBox_def
  sizeof_MovieBox_def sizeof_MovieHeaderBoxVersion0_def sizeof_TrackBox_def
  sizeof_TrackHeaderBoxVersion0_def sizeof_MediaBox_def sizeof_MediaHeaderBoxVersion0_def
  sizeof_MediaInformationBox_def sizeof_SampleTableBox_def
  sizeof_SampleDescriptionBoxVersion0_def sizeof_TimeToSampleBoxVersion0_def
  sizeof_SampleToChunkBoxVersion0_def sizeof_SampleSizeBoxVersion0_def
  sizeof_ChunkLargeOffsetBoxVersion0_def sizeof_SyncSampleBoxVersion0_def
  sizeof_LargeMediaDataBox_def

lemma co64_header_entry_count_new:
  "co64_header_entry_count (Mp4File_new segs entry) = word_of_int (int (length segs))"
  unfolding Mp4File_new_def Let_def append_mdat_def AppendMoov_def AppendStbl_def
  by (simp add: slices_Append_def slices_Append_each_def Mp4File_members_def)

lemma ex_initial_sample_byte_pos:
  "initial_sample_byte_pos (Mp4File_new ex_segments ex_entry) = 625"
  unfolding Mp4File_new_def Let_def append_mdat_def AppendMoov_def AppendStbl_def
  by (simp add: slices_Append_def slices_Append_each_def Mp4File_members_def
      FileSlices_size_def sizeof_defs ex_segments_def ex_entry_def ex_pieces_whole_def
      ex_pieces_window_def)

text \<open>
  C5. For a constructed Mp4File f with n segments, the co64 table that FillCo64Entries
  produces is the big-endian image of n offsets (and the co64 header counts n entries);
  the first offset is initial_sample_byte_pos, which is the size of everything up to and
  including the mdat header; and each offset exceeds the one before by the size of the
  earlier segment's sample_file_slice.
\<close>

theorem co64_offsets:
  assumes "f = Mp4File_new segs entry"
  shows "\<exists>offsets before.
     FillCo64Entries f [] = concat (map (\<lambda>v. AppendU64 (word_of_int v) []) offsets) \<and>
     length offsets = length segs \<and> length (segments f) = length segs \<and>
     co64_header_entry_count f = word_of_int (int (length segs)) \<and>
     (segs \<noteq> [] \<longrightarrow> offsets ! 0 = initial_sample_byte_pos f) \<and>
     (\<forall>i. Suc i < length segs \<longrightarrow>
        offsets ! Suc i - offsets ! i = ByteRange_size (sample_file_slice (segments f ! i))) \<and>
     slices f = before @ CopyingStringPieceSlice sizeof_LargeMediaDataBox #
        map (\<lambda>seg. RealFileSlice (sample_file_slice seg)) (segments f) \<and>
     initial_sample_byte_pos f =
        FileSlices_size (before @ [CopyingStringPieceSlice sizeof_LargeMediaDataBox])"
proof -
  define sizes where "sizes = map (\<lambda>seg. ByteRange_size (sample_file_slice seg)) (segments f)"
  define offsets where "offsets = chunk_offsets (initial_sample_byte_pos f) sizes"
  have len: "length (segments f) = length segs"
    by (simp add: assms Mp4File_new_segments)
  then have len_sizes: "length sizes = length segs" by (simp add: sizes_def)
  have 1: "FillCo64Entries f [] = concat (map (\<lambda>v. AppendU64 (word_of_int v) []) offsets)"
    by (simp add: FillCo64Entries_def co64_loop_eq offsets_def sizes_def)
  have 2: "length offsets = length segs" by (simp add: offsets_def len_sizes)
  have 3: "segs \<noteq> [] \<longrightarrow> offsets ! 0 = initial_sample_byte_pos f"
    using len_sizes by (auto simp: offsets_def intro: chunk_offsets_first)
  have 4: "\<forall>i. Suc i < length segs \<longrightarrow>
        offsets ! Suc i - offsets ! i = ByteRange_size (sample_file_slice (segments f ! i))"
  proof (intro allI impI)
    fix i assume i: "Suc i < length segs"
    then have "offsets ! Suc i - offsets ! i = sizes ! i"
      unfolding offsets_def using len_sizes by (intro chunk_offsets_step) simp
    also have "sizes ! i = ByteRange_size (sample_file_slice (segments f ! i))"
      using i len by (simp add: sizes_def)
    finally show "offsets ! Suc i - offsets ! i
        = ByteRange_size (sample_file_slice (segments f ! i))" .
  qed
  have 5: "co64_header_entry_count f = word_of_int (int (length segs))"
    by (simp add: assms co64_header_entry_count_new)
  from Mp4File_new_layout [of segs entry] obtain before where
    "slices f = before @ CopyingStringPieceSlice sizeof_LargeMediaDataBox #
        map (\<lambda>seg. RealFileSlice (sample_file_slice seg)) (segments f)"
    "initial_sample_byte_pos f =
        FileSlices_size (before @ [CopyingStringPieceSlice sizeof_LargeMediaDataBox])"
    unfolding assms by blast
  with 1 2 3 4 5 len show ?thesis by blast
qed

theorem co64_offsets_witness:
  "\<exists>offsets. FillCo64Entries (Mp4File_new ex_segments ex_entry) []
       = concat (map (\<lambda>v. AppendU64 (word_of_int v) []) offsets) \<and>
     length offsets = 2 \<and> offsets ! 0 = 625 \<and> offsets ! 1 = 2685"
proof -
  have size0: "ByteRange_size (sample_file_slice (segments (Mp4File_new ex_segments ex_entry) ! 0)) = 2060"
    by (simp add: Mp4File_new_segments ex_segments_def ex_pieces_whole_def ByteRange_size_def)
  have ne: "ex_segments \<noteq> []" and len: "length ex_segments = 2"
    by (simp_all add: ex_segments_def)
  from co64_offsets [OF refl, of ex_segments ex_entry] obtain offsets where o:
    "FillCo64Entries (Mp4File_new ex_segments ex_entry) []
       = concat (map (\<lambda>v. AppendU64 (word_of_int v) []) offsets)"
    "length offsets = length ex_segments"
    "ex_segments \<noteq> [] \<longrightarrow> offsets ! 0 = initial_sample_byte_pos (Mp4File_new ex_segments ex_entry)"
    "\<forall>i. Suc i < length ex_segments \<longrightarrow> offsets ! Suc i - offsets ! i
       = ByteRange_size (sample_file_slice (segments (Mp4File_new ex_segments ex_entry) ! i))"
    by blast
  from o(3) ne have "offsets ! 0 = 625" by (simp add: ex_initial_sample_byte_pos)
  moreover from o(4) len have "offsets ! Suc 0 - offsets ! 0 = 2060"
    using size0 by auto
  ultimately have "offsets ! 0 = 625 \<and> offsets ! 1 = 2685" by simp
  with o(1,2) len show ?thesis by auto
qed

section \<open>The filler loops and the scan of Init\<close>

lemma AppendU32_append: "AppendU32 v s = s @ AppendU32 v []"
  by (simp add: AppendU32_def)

lemma length_AppendU32 [simp]: "length (AppendU32 v s) = length s + 4"
  by (simp add: AppendU32_def)

lemma length_Append32 [simp]: "length (Append32 v s) = length s + 4"
  by (simp add: Append32_def)

lemma stts_loop_eq:
  "stts_loop e it s = (stop_at e it, snd (stts_loop e it s)) \<and>
   int (length (snd (stts_loop e it s))) = int (length s) + 8 * int (length (visited e it))"
proof (induction e it s rule: stts_loop.induct)
  case (1 e it s)
  show ?case
  proof (cases "\<not> it_done it \<and> it_start_90k it < e")
    case True
    with 1 show ?thesis
      by (subst (1 2 3) stts_loop.simps, subst stop_at.simps, subst visited.simps) simp
  next
    case False
    then show ?thesis
      by (subst (1 2 3) stts_loop.simps, subst stop_at.simps, subst visited.simps) auto
  qed
qed

lemma stsz_loop_eq:
  "stsz_loop e it s = (stop_at e it, snd (stsz_loop e it s)) \<and>
   int (length (snd (stsz_loop e it s))) = int (length s) + 4 * int (length (visited e it))"
proof (induction e it s rule: stsz_loop.induct)
  case (1 e it s)
  show ?case
  proof (cases "\<not> it_done it \<and> it_start_90k it < e")
    case True
    with 1 show ?thesis
      by (subst (1 2 3) stsz_loop.simps, subst stop_at.simps, subst visited.simps) simp
  next
    case False
    then show ?thesis
      by (subst (1 2 3) stsz_loop.simps, subst stop_at.simps, subst visited.simps) auto
  qed
qed

lemma stss_loop_eq:
  "stss_loop e it n s = (stop_at e it, snd (stss_loop e it n s)) \<and>
   int (length (snd (stss_loop e it n s))) =
     int (length s) + 4 * int (length (filter it_is_key (visited e it)))"
proof (induction e it n s rule: stss_loop.induct)
  case (1 e it n s)
  show ?case
  proof (cases "\<not> it_done it \<and> it_start_90k it < e")
    case True
    with 1 show ?thesis
      by (subst (1 2 3) stss_loop.simps, subst stop_at.simps, subst visited.simps) simp
  next
    case False
    then show ?thesis
      by (subst (1 2 3) stss_loop.simps, subst stop_at.simps, subst visited.simps) auto
  qed
qed


lemma visited_stop [simp]:
  "it_done it \<Longrightarrow> visited e it = []"
  "e \<le> it_start_90k it \<Longrightarrow> visited e it = []"
  "it_done it \<Longrightarrow> stop_at e it = it"
  "e \<le> it_start_90k it \<Longrightarrow> stop_at e it = it"
  by (subst visited.simps, simp)+ (subst stop_at.simps, simp)+

lemma visited_step:
  "\<not> it_done it \<Longrightarrow> it_start_90k it < e \<Longrightarrow> visited e it = it # visited e (Next it)"
  "\<not> it_done it \<Longrightarrow> it_start_90k it < e \<Longrightarrow> stop_at e it = stop_at e (Next it)"
  by (subst visited.simps, simp) (subst stop_at.simps, simp)

lemma scan_inv_reset:
  "it_start_90k it \<le> s \<Longrightarrow> it_is_key it \<Longrightarrow> scan_inv e it (new_start_candidate s it p)"
  by (simp add: scan_inv_def new_start_candidate_def)

lemma scan_inv_keep:
  "scan_inv e it p \<Longrightarrow> scan_inv e it (new_start_candidate s it p)"
  by (auto simp: scan_inv_def new_start_candidate_def)

lemma scan_inv_process:
  assumes "scan_inv e it p" "\<not> it_done it" "it_start_90k it < e"
  shows "scan_inv e (Next it) (process_frame it p)"
proof -
  from assms(1) obtain pre where pre:
    "visited e (begin_it p) = pre @ visited e it"
    "has_error (stop_at e (begin_it p)) \<longrightarrow> has_error (stop_at e it)"
    "int (length pre) = frames p" "int (length (filter it_is_key pre)) = key_frames p"
    by (auto simp: scan_inv_def)
  have "visited e (begin_it (process_frame it p)) = (pre @ [it]) @ visited e (Next it)"
    using pre(1) assms(2,3) by (simp add: visited_step process_frame_def)
  moreover have "has_error (stop_at e (begin_it (process_frame it p))) \<longrightarrow> has_error (stop_at e (Next it))"
    using pre(2) assms(2,3) by (simp add: visited_step process_frame_def)
  moreover have "int (length (pre @ [it])) = frames (process_frame it p)"
    using pre(3) by (simp add: process_frame_def)
  moreover have "int (length (filter it_is_key (pre @ [it]))) = key_frames (process_frame it p)"
    using pre(4) by (simp add: process_frame_def)
  ultimately show ?thesis unfolding scan_inv_def by blast
qed

lemma scan_inv_post:
  assumes "scan_inv e it p" "it_done it \<or> e \<le> it_start_90k it"
  shows "scan_post e (it, p)"
proof -
  from assms(2) have v: "visited e it = []" "stop_at e it = it" by auto
  with assms(1) show ?thesis by (auto simp: scan_inv_def scan_post_def)
qed

lemma scan_counts:
  "scan_inv e it p \<or> (\<not> it_done it \<and> it_is_key it \<and> it_start_90k it \<le> s)
     \<Longrightarrow> scan_post e (scan s e it p)"
proof (induction s e it p rule: scan.induct)
  case (1 s e it p)
  have inv1: "\<not> it_done it \<Longrightarrow> scan_inv e it (new_start_candidate s it p)"
    using "1.prems" scan_inv_reset scan_inv_keep by blast
  consider (fin) "it_done it" | (brk) "\<not> it_done it" "e \<le> it_start_90k it"
    | (cont) "\<not> it_done it" "it_start_90k it < e" by linarith
  then show ?case
  proof cases
    case fin
    with "1.prems" have "scan_inv e it p" by blast
    with fin show ?thesis by (subst scan.simps) (simp add: scan_inv_post)
  next
    case brk
    with inv1 show ?thesis by (subst scan.simps) (simp add: scan_inv_post)
  next
    case cont
    from cont inv1 have "scan_inv e (Next it) (process_frame it (new_start_candidate s it p))"
      by (simp add: scan_inv_process)
    with cont "1.IH" have "scan_post e (scan s e (Next it) (process_frame it (new_start_candidate s it p)))"
      by simp
    with cont show ?thesis by (subst scan.simps) simp
  qed
qed

lemma scan_keeps:
  "desired_end_90k (snd (scan s e it p)) = desired_end_90k p \<and>
   sample_offset (snd (scan s e it p)) = sample_offset p \<and>
   sample_entry_index (snd (scan s e it p)) = sample_entry_index p"
proof (induction s e it p rule: scan.induct)
  case (1 s e it p)
  show ?case
    using 1 by (subst (1 2 3) scan.simps) (simp add: new_start_candidate_def process_frame_def)
qed


lemma has_error_default [simp]: "\<not> has_error SampleIndexIterator_default"
  by (simp add: has_error_def SampleIndexIterator_default_def)

lemma it_done_default [simp]: "it_done SampleIndexIterator_default"
  by (simp add: it_done_def SampleIndexIterator_default_def)

lemma it_start_90k_of [simp]: "it_start_90k (SampleIndexIterator_of vi) = 0"
  by (simp add: it_start_90k_def SampleIndexIterator_of_def)

lemma has_error_not_done: "\<not> it_done it \<Longrightarrow> \<not> has_error it"
  by (simp add: has_error_def it_done_def)

text \<open>What a successful Init leaves behind, on either path.\<close>

lemma Init_fast:
  assumes "fast_path r s e"
  shows "Init this r ei off s e =
     init_fillers (SampleIndexIterator_of (video_index r))
       (this\<lparr>sample_entry_index := ei, sample_offset := off, desired_end_90k := e,
          sample_pos := (sample_pos this)\<lparr>br_end := sample_file_bytes r\<rparr>,
          begin_it := SampleIndexIterator_of (video_index r),
          frames := video_samples r, key_frames := video_sync_samples r,
          actual_end_90k := int32_of (end_time_90k r - start_time_90k r)\<rparr>)"
  using assms by (simp add: Init_def Let_def)

lemma Init_slow:
  assumes "\<not> fast_path r s e"
  shows "Init this r ei off s e =
     (let p = this\<lparr>sample_entry_index := ei, sample_offset := off, desired_end_90k := e\<rparr>;
          it = SampleIndexIterator_of (video_index r)
      in if \<not> it_done it \<and> \<not> it_is_key it
         then (Some ''First frame must be a key frame.'', p)
         else init_fillers (fst (scan s e it p))
                ((snd (scan s e it p))\<lparr>sample_pos :=
                   (sample_pos (snd (scan s e it p)))\<lparr>br_end := it_pos (fst (scan s e it p))\<rparr>\<rparr>))"
  using assms by (simp add: Init_def Let_def split: prod.splits)

lemma init_fillers_None:
  "init_fillers it p = (None, p') \<Longrightarrow>
     \<not> has_error it \<and> begin_it p' = begin_it p \<and> frames p' = frames p \<and>
     key_frames p' = key_frames p \<and> desired_end_90k p' = desired_end_90k p \<and>
     sample_offset p' = sample_offset p \<and> actual_end_90k p' = actual_end_90k p \<and>
     sample_pos p' = sample_pos p \<and>
     stts_entries p' = 8 * frames p \<and> stss_entries p' = 4 * key_frames p \<and>
     stsz_entries p' = 4 * frames p"
  by (auto simp: init_fillers_def stts_entry_count_def stss_entry_count_def stsz_entry_count_def
      split: if_splits)

lemma Init_counts:
  assumes ok: "Init Mp4SampleTablePieces_new r ei off s e = (None, p)"
    and s: "0 \<le> s"
    and agree: "fast_path r s e \<longrightarrow> metadata_agrees r e"
  shows "desired_end_90k p = e \<and>
     int (length (visited e (begin_it p))) = frames p \<and>
     int (length (filter it_is_key (visited e (begin_it p)))) = key_frames p \<and>
     \<not> has_error (stop_at e (begin_it p)) \<and>
     stts_entries p = 8 * frames p \<and> stss_entries p = 4 * key_frames p \<and>
     stsz_entries p = 4 * frames p"
proof (cases "fast_path r s e")
  case True
  with agree have a: "metadata_agrees r e" by simp
  from ok True show ?thesis
    using a by (auto simp: Init_fast metadata_agrees_def Let_def dest!: init_fillers_None)
next
  case False
  define it where "it = SampleIndexIterator_of (video_index r)"
  define p0 where "p0 = Mp4SampleTablePieces_new\<lparr>sample_entry_index := ei, sample_offset := off,
     desired_end_90k := e\<rparr>"
  from ok False have key: "it_done it \<or> it_is_key it"
    by (auto simp: Init_slow Let_def it_def split: if_splits)
  with ok False have fill: "init_fillers (fst (scan s e it p0))
     ((snd (scan s e it p0))\<lparr>sample_pos :=
        (sample_pos (snd (scan s e it p0)))\<lparr>br_end := it_pos (fst (scan s e it p0))\<rparr>\<rparr>) = (None, p)"
    by (auto simp: Init_slow Let_def it_def p0_def split: if_splits)
  have "scan_inv e it p0 \<or> (\<not> it_done it \<and> it_is_key it \<and> it_start_90k it \<le> s)"
  proof (cases "it_done it")
    case True
    then have "scan_inv e it p0"
      by (simp add: scan_inv_def p0_def Mp4SampleTablePieces_new_def)
    then show ?thesis ..
  next
    case False
    with key s show ?thesis by (simp add: it_def)
  qed
  then have "scan_post e (scan s e it p0)" by (rule scan_counts)
  then have post: "int (length (visited e (begin_it (snd (scan s e it p0))))) = frames (snd (scan s e it p0))"
     "int (length (filter it_is_key (visited e (begin_it (snd (scan s e it p0)))))) = key_frames (snd (scan s e it p0))"
     "has_error (stop_at e (begin_it (snd (scan s e it p0)))) \<longrightarrow> has_error (fst (scan s e it p0))"
    by (auto simp: scan_post_def split: prod.splits)
  have keep: "desired_end_90k (snd (scan s e it p0)) = e"
    using scan_keeps [of s e it p0] by (simp add: p0_def)
  from init_fillers_None [OF fill] post keep show ?thesis by simp
qed

lemma Fill_results:
  "FillSttsEntries p [] = (if has_error (stop_at (desired_end_90k p) (begin_it p))
       then Some (error_of (stop_at (desired_end_90k p) (begin_it p))) else None,
     snd (stts_loop (desired_end_90k p) (begin_it p) []))"
  "FillStszEntries p [] = (if has_error (stop_at (desired_end_90k p) (begin_it p))
       then Some (error_of (stop_at (desired_end_90k p) (begin_it p))) else None,
     snd (stsz_loop (desired_end_90k p) (begin_it p) []))"
  "FillStssEntries p [] = (if has_error (stop_at (desired_end_90k p) (begin_it p))
       then Some (error_of (stop_at (desired_end_90k p) (begin_it p))) else None,
     snd (stss_loop (desired_end_90k p) (begin_it p) (word_of_int (sample_offset p)) []))"
proof -
  show "FillSttsEntries p [] = (if has_error (stop_at (desired_end_90k p) (begin_it p))
       then Some (error_of (stop_at (desired_end_90k p) (begin_it p))) else None,
     snd (stts_loop (desired_end_90k p) (begin_it p) []))"
    unfolding FillSttsEntries_def
    by (subst stts_loop_eq [THEN conjunct1]) simp
  show "FillStszEntries p [] = (if has_error (stop_at (desired_end_90k p) (begin_it p))
       then Some (error_of (stop_at (desired_end_90k p) (begin_it p))) else None,
     snd (stsz_loop (desired_end_90k p) (begin_it p) []))"
    unfolding FillStszEntries_def
    by (subst stsz_loop_eq [THEN conjunct1]) simp
  show "FillStssEntries p [] = (if has_error (stop_at (desired_end_90k p) (begin_it p))
       then Some (error_of (stop_at (desired_end_90k p) (begin_it p))) else None,
     snd (stss_loop (desired_end_90k p) (begin_it p) (word_of_int (sample_offset p)) []))"
    unfolding FillStssEntries_def
    by (subst stss_loop_eq [THEN conjunct1]) simp
qed

section \<open>The two paths of Init\<close>

lemma int32_of_id: "- (2 ^ 31) \<le> x \<Longrightarrow> x < 2 ^ 31 \<Longrightarrow> int32_of x = x"
  by (simp add: int32_of_def sint_sbintrunc' signed_take_bit_int_eq_self)

lemma init_fillers_keeps:
  "begin_it (snd (init_fillers it p)) = begin_it p"
  "frames (snd (init_fillers it p)) = frames p"
  "key_frames (snd (init_fillers it p)) = key_frames p"
  "sample_pos (snd (init_fillers it p)) = sample_pos p"
  "actual_end_90k (snd (init_fillers it p)) = actual_end_90k p"
  "fst (init_fillers it p) = (if has_error it then Some (error_of it) else None)"
  by (simp_all add: init_fillers_def)

text \<open>
  C6. Whenever Init is called on a fresh pieces object with start_90k = 0 and end_90k at
  least the recording's duration, it takes the fast path: whatever the frames of the
  index are, frames is video_samples, key_frames is video_sync_samples, sample_pos is
  [0, sample_file_bytes), actual_end_90k is the recording's duration and begin is the
  iterator as constructed, at position 0; Init fails only if that iterator reports an
  error. Here end_90k is an int32_t value and the duration, which is at most end_90k, is
  not below the least int32_t, as holds for every recording that does not end before it
  starts.
\<close>

theorem Init_fast_path:
  assumes "start = 0" and "end_time_90k r - start_time_90k r \<le> e"
    and "e < 2 ^ 31" and "- (2 ^ 31) \<le> end_time_90k r - start_time_90k r"
  shows "frames (snd (Init Mp4SampleTablePieces_new r ei off start e)) = video_samples r \<and>
     key_frames (snd (Init Mp4SampleTablePieces_new r ei off start e)) = video_sync_samples r \<and>
     sample_pos (snd (Init Mp4SampleTablePieces_new r ei off start e))
       = \<lparr>br_begin = 0, br_end = sample_file_bytes r\<rparr> \<and>
     actual_end_90k (snd (Init Mp4SampleTablePieces_new r ei off start e))
       = end_time_90k r - start_time_90k r \<and>
     begin_it (snd (Init Mp4SampleTablePieces_new r ei off start e))
       = SampleIndexIterator_of (video_index r) \<and>
     it_pos (SampleIndexIterator_of (video_index r)) = 0 \<and>
     fst (Init Mp4SampleTablePieces_new r ei off start e)
       = (if has_error (SampleIndexIterator_of (video_index r))
          then Some (error_of (SampleIndexIterator_of (video_index r))) else None)"
proof -
  from assms(1,2) have fp: "fast_path r start e" by (simp add: fast_path_def)
  from assms(2,3,4) have "int32_of (end_time_90k r - start_time_90k r)
      = end_time_90k r - start_time_90k r"
    by (intro int32_of_id) simp_all
  then show ?thesis
    by (simp add: Init_fast [OF fp] init_fillers_keeps Mp4SampleTablePieces_new_def
        it_pos_def SampleIndexIterator_of_def)
qed

theorem Init_fast_path_witness:
  "frames (snd (Init Mp4SampleTablePieces_new ex_recording 1 1 0 300)) = 3 \<and>
   key_frames (snd (Init Mp4SampleTablePieces_new ex_recording 1 1 0 300)) = 2 \<and>
   sample_pos (snd (Init Mp4SampleTablePieces_new ex_recording 1 1 0 300))
     = \<lparr>br_begin = 0, br_end = 2060\<rparr> \<and>
   actual_end_90k (snd (Init Mp4SampleTablePieces_new ex_recording 1 1 0 300)) = 300 \<and>
   fst (Init Mp4SampleTablePieces_new ex_recording 1 1 0 300) = None"
proof -
  have "(0::int) = 0" "end_time_90k ex_recording - start_time_90k ex_recording \<le> 300"
    "(300::int) < 2 ^ 31" "- (2 ^ 31) \<le> end_time_90k ex_recording - start_time_90k ex_recording"
    by (simp_all add: ex_recording_def)
  from Init_fast_path [OF this, of 1 1] show ?thesis
    by (simp add: ex_recording_def ex_index_def iterator_defs)
qed

lemma Init_not_keyed:
  assumes "\<not> fast_path r s e" "vi_frames (video_index r) \<noteq> []"
    "\<not> f_is_key (hd (vi_frames (video_index r)))"
  shows "fst (Init this r ei off s e) = Some ''First frame must be a key frame.''"
  using assms
  by (cases "vi_frames (video_index r)")
    (simp_all add: Init_slow Let_def it_done_def it_is_key_def SampleIndexIterator_of_def)

lemma build_segments_fails:
  assumes "seg \<in> set segs"
    and "\<And>off. fst (Init (pieces seg) (recording seg) 1 off (rel_start_90k seg) (rel_end_90k seg)) \<noteq> None"
  shows "\<exists>err. build_segments entry_id off segs = Inl err"
  using assms(1)
proof (induction segs arbitrary: off)
  case Nil
  then show ?case by simp
next
  case (Cons s ss)
  show ?case
  proof (cases "seg = s")
    case True
    with assms(2) [of off] show ?thesis
      by (auto split: prod.splits option.splits)
  next
    case False
    with Cons.prems have "seg \<in> set ss" by simp
    from Cons.IH [OF this] show ?thesis
      by (auto split: prod.splits option.splits sum.splits) (metis sum.distinct(1))+
  qed
qed


text \<open>
  C7, as amended. For a recording whose sample index starts with a frame that is not a key
  frame, and a window that does not take the fast path (start_90k is not 0, or end_90k is
  before the recording's duration), Init fails with the message "First frame must be a key
  frame."; hence Build returns a null VirtualFile for every segment list that holds such a
  segment.
\<close>

theorem Init_slow_path_not_keyed:
  assumes "seg \<in> set (b_segments b)"
    and "vi_frames (video_index (recording seg)) \<noteq> []"
    and "\<not> f_is_key (hd (vi_frames (video_index (recording seg))))"
    and "\<not> fast_path (recording seg) (rel_start_90k seg) (rel_end_90k seg)"
  shows "fst (Init this (recording seg) ei off (rel_start_90k seg) (rel_end_90k seg))
       = Some ''First frame must be a key frame.'' \<and>
     (\<exists>err. Build b = Inl err)"
proof -
  have fails: "fst (Init this' (recording seg) ei' off' (rel_start_90k seg) (rel_end_90k seg))
       = Some ''First frame must be a key frame.''" for this' ei' off'
    using assms(2-4) by (intro Init_not_keyed)
  then have "\<And>off. fst (Init (pieces seg) (recording seg) 1 off (rel_start_90k seg)
       (rel_end_90k seg)) \<noteq> None"
    by simp
  from build_segments_fails [OF assms(1) this]
  obtain err where "build_segments (vse_id (b_video_sample_entry b)) 1 (b_segments b) = Inl err"
    by blast
  then have "Build b = Inl err" by (simp add: Build_def)
  with fails show ?thesis by blast
qed

lemma ex_not_keyed_facts:
  "vi_frames (video_index ex_recording_not_keyed) \<noteq> []"
  "\<not> f_is_key (hd (vi_frames (video_index ex_recording_not_keyed)))"
  "\<not> fast_path ex_recording_not_keyed 50 200"
  "\<not> fast_path ex_recording_not_keyed 0 0"
  "fast_path ex_recording_not_keyed 0 200"
  by (simp_all add: ex_recording_not_keyed_def fast_path_def)

theorem Init_slow_path_not_keyed_witness:
  "fst (Init Mp4SampleTablePieces_new ex_recording_not_keyed 1 4 50 200)
     = Some ''First frame must be a key frame.'' \<and>
   Build ex_builder_not_keyed_window = Inl (InitFailed ''First frame must be a key frame.'')"
proof -
  define seg where "seg = \<lparr>recording = ex_recording_not_keyed, rel_start_90k = 50,
     rel_end_90k = 200, pieces = Mp4SampleTablePieces_new,
     sample_file_slice = \<lparr>br_begin = 0, br_end = 0\<rparr>\<rparr>"
  have 1: "seg \<in> set (b_segments ex_builder_not_keyed_window)"
    by (simp add: ex_builder_not_keyed_window_def Append_def seg_def)
  have 2: "vi_frames (video_index (recording seg)) \<noteq> []"
    "\<not> f_is_key (hd (vi_frames (video_index (recording seg))))"
    "\<not> fast_path (recording seg) (rel_start_90k seg) (rel_end_90k seg)"
    by (simp_all add: seg_def ex_not_keyed_facts)
  from Init_slow_path_not_keyed [OF 1 2, of Mp4SampleTablePieces_new 1 4]
  have init: "fst (Init Mp4SampleTablePieces_new ex_recording_not_keyed 1 4 50 200)
       = Some ''First frame must be a key frame.''"
    and "\<exists>err. Build ex_builder_not_keyed_window = Inl err"
    by (simp_all add: seg_def)
  then obtain p where "Init Mp4SampleTablePieces_new ex_recording_not_keyed 1 4 50 200
       = (Some ''First frame must be a key frame.'', p)"
    by (cases "Init Mp4SampleTablePieces_new ex_recording_not_keyed 1 4 50 200") simp
  then have "Build ex_builder_not_keyed_window
       = Inl (InitFailed ''First frame must be a key frame.'')"
    by (simp add: Build_def ex_builder_not_keyed_window_def Append_def ex_ids ex_Init_whole
        ex_recording_not_keyed_def [THEN arg_cong [of _ _ video_sample_entry_id]])
  with init show ?thesis by simp
qed

text \<open>The claim as written fails on the fast path: the whole of a recording that starts
  with a frame that is not a key frame is accepted by Init and by Build.\<close>

theorem Init_not_keyed_counterexample:
  "vi_frames (video_index ex_recording_not_keyed) \<noteq> [] \<and>
   \<not> f_is_key (hd (vi_frames (video_index ex_recording_not_keyed))) \<and>
   fst (Init Mp4SampleTablePieces_new ex_recording_not_keyed 1 1 0 200) = None \<and>
   \<not> isl (Build ex_builder_not_keyed)"
proof -
  have init: "fst (Init Mp4SampleTablePieces_new ex_recording_not_keyed 1 1 0 200) = None"
    by (simp add: Init_fast [OF ex_not_keyed_facts(5)] init_fillers_keeps)
      (simp add: ex_recording_not_keyed_def iterator_defs)
  then obtain p where "Init Mp4SampleTablePieces_new ex_recording_not_keyed 1 1 0 200 = (None, p)"
    by (cases "Init Mp4SampleTablePieces_new ex_recording_not_keyed 1 1 0 200") simp
  then have "\<not> isl (Build ex_builder_not_keyed)"
    by (simp add: Build_def ex_builder_not_keyed_def Append_def ex_ids
        ex_recording_not_keyed_def [THEN arg_cong [of _ _ video_sample_entry_id]])
  with init ex_not_keyed_facts(1,2) show ?thesis by simp
qed

lemma positions_of_empty:
  "vi_frames vi = [] \<Longrightarrow> it_done (SampleIndexIterator_of vi)"
  by (simp add: it_done_def SampleIndexIterator_of_def)

lemma positions_first:
  "\<not> it_done it \<Longrightarrow> it \<in> set (positions it)"
  by (subst positions.simps) simp

text \<open>
  C10, as amended. For a slow-path window that selects no frames, because the index is
  empty (it decodes to no frame, without error) or because its first frame is a key frame
  and every frame starts at or after end_90k, Init on a fresh pieces object succeeds with
  frames = 0 and key_frames = 0; for the empty index no key frame is asked for.
\<close>

theorem Init_selecting_no_frames:
  assumes "\<not> fast_path r s e"
    and "(vi_frames (video_index r) = [] \<and> vi_error (video_index r) = None) \<or>
         (vi_frames (video_index r) \<noteq> [] \<and> f_is_key (hd (vi_frames (video_index r))) \<and>
          (\<forall>it \<in> set (positions (SampleIndexIterator_of (video_index r))). e \<le> it_start_90k it))"
  shows "fst (Init Mp4SampleTablePieces_new r ei off s e) = None \<and>
     frames (snd (Init Mp4SampleTablePieces_new r ei off s e)) = 0 \<and>
     key_frames (snd (Init Mp4SampleTablePieces_new r ei off s e)) = 0"
proof -
  define it where "it = SampleIndexIterator_of (video_index r)"
  from assms(2) show ?thesis
  proof (elim disjE conjE)
    assume "vi_frames (video_index r) = []" "vi_error (video_index r) = None"
    then have "it_done it" "\<not> has_error it"
      by (simp_all add: it_def it_done_def has_error_def SampleIndexIterator_of_def)
    then show ?thesis
      unfolding Init_slow [OF assms(1)] Let_def it_def [symmetric]
      by (simp add: scan.simps init_fillers_keeps Mp4SampleTablePieces_new_def)
  next
    assume ne: "vi_frames (video_index r) \<noteq> []"
      and key: "f_is_key (hd (vi_frames (video_index r)))"
      and past: "\<forall>it \<in> set (positions (SampleIndexIterator_of (video_index r))). e \<le> it_start_90k it"
    from ne have nd: "\<not> it_done it"
      by (simp add: it_def it_done_def SampleIndexIterator_of_def)
    from ne key have k: "it_is_key it"
      by (cases "vi_frames (video_index r)")
        (simp_all add: it_def it_is_key_def SampleIndexIterator_of_def)
    from past positions_first [OF nd] have e: "e \<le> it_start_90k it"
      unfolding it_def by blast
    from nd have ne: "\<not> has_error it" by (rule has_error_not_done)
    from nd k e ne show ?thesis
      unfolding Init_slow [OF assms(1)] Let_def it_def [symmetric]
      by (simp add: scan.simps init_fillers_keeps new_start_candidate_def
          Mp4SampleTablePieces_new_def)
  qed
qed

theorem Init_selecting_no_frames_witness:
  "fst (Init Mp4SampleTablePieces_new ex_recording 1 1 0 0) = None \<and>
   frames (snd (Init Mp4SampleTablePieces_new ex_recording 1 1 0 0)) = 0 \<and>
   key_frames (snd (Init Mp4SampleTablePieces_new ex_recording 1 1 0 0)) = 0"
proof -
  have slow: "\<not> fast_path ex_recording 0 0"
    by (simp add: fast_path_def ex_recording_def)
  have "vi_frames (video_index ex_recording) \<noteq> []"
    "f_is_key (hd (vi_frames (video_index ex_recording)))"
    "\<forall>it \<in> set (positions (SampleIndexIterator_of (video_index ex_recording))).
       0 \<le> it_start_90k it"
    by (simp_all add: ex_recording_def ex_index_def positions.simps iterator_defs)
  then have "(vi_frames (video_index ex_recording) = [] \<and>
        vi_error (video_index ex_recording) = None) \<or>
      (vi_frames (video_index ex_recording) \<noteq> [] \<and>
       f_is_key (hd (vi_frames (video_index ex_recording))) \<and>
       (\<forall>it \<in> set (positions (SampleIndexIterator_of (video_index ex_recording))).
          0 \<le> it_start_90k it))"
    by blast
  from Init_selecting_no_frames [OF slow this] show ?thesis .
qed

text \<open>The claim as written fails when the first frame is not a key frame: the window
  [0, 0) of such a recording selects no frame, both frames starting at or after 0, and Init
  reports the error.\<close>

theorem Init_selecting_no_frames_counterexample:
  "\<not> fast_path ex_recording_not_keyed 0 0 \<and>
   map it_start_90k (positions (SampleIndexIterator_of (video_index ex_recording_not_keyed)))
     = [0, 100] \<and>
   fst (Init Mp4SampleTablePieces_new ex_recording_not_keyed 1 1 0 0)
     = Some ''First frame must be a key frame.''"
proof -
  have "map it_start_90k (positions (SampleIndexIterator_of (video_index ex_recording_not_keyed)))
     = [0, 100]"
    by (simp add: ex_recording_not_keyed_def positions.simps iterator_defs)
  with ex_not_keyed_facts(4) Init_not_keyed [OF ex_not_keyed_facts(4,1,2)]
  show ?thesis by simp
qed

section \<open>The window chosen by the slow path\<close>

lemma start_Next: "\<not> it_done it \<Longrightarrow> it_start_90k (Next it) = it_end_90k it"
  by (cases "rest it")
    (simp_all add: it_done_def Next_def it_start_90k_def it_end_90k_def it_duration_90k_def)

lemma positions_step: "\<not> it_done it \<Longrightarrow> positions it = it # positions (Next it)"
  by (subst positions.simps) simp

lemma positions_done [simp]: "it_done it \<Longrightarrow> positions it = []"
  by (subst positions.simps) simp

lemma scan_begin:
  "begin_it (snd (scan s e it p))
     = last (begin_it p # filter (start_candidate s) (scanned e it))"
proof (induction s e it p rule: scan.induct)
  case (1 s e it p)
  consider (fin) "it_done it" | (brk) "\<not> it_done it" "e \<le> it_start_90k it"
    | (cont) "\<not> it_done it" "it_start_90k it < e" by linarith
  then show ?case
  proof cases
    case fin
    then show ?thesis by (subst scan.simps, subst scanned.simps) simp
  next
    case brk
    then show ?thesis
      by (subst scan.simps, subst scanned.simps)
        (simp add: new_start_candidate_def start_candidate_def)
  next
    case cont
    with "1.IH" have "begin_it (snd (scan s e (Next it) (process_frame it (new_start_candidate s it p))))
        = last (begin_it (process_frame it (new_start_candidate s it p))
                # filter (start_candidate s) (scanned e (Next it)))"
      by simp
    with cont show ?thesis
      by (subst scan.simps, subst scanned.simps)
        (simp add: new_start_candidate_def start_candidate_def process_frame_def)
  qed
qed

lemma candidates_scanned:
  "sorted_wrt (<) (map it_start_90k (positions it)) \<Longrightarrow> s \<le> e \<Longrightarrow>
     filter (start_candidate s) (positions it) = filter (start_candidate s) (scanned e it)"
proof (induction e it rule: scanned.induct)
  case (1 e it)
  consider (fin) "it_done it" | (brk) "\<not> it_done it" "e \<le> it_start_90k it"
    | (cont) "\<not> it_done it" "it_start_90k it < e" by linarith
  then show ?case
  proof cases
    case fin
    then show ?thesis by (subst scanned.simps) simp
  next
    case brk
    with "1.prems"(1) have "\<forall>x \<in> set (positions (Next it)). it_start_90k it < it_start_90k x"
      by (simp add: positions_step)
    with brk "1.prems"(2) have "filter (start_candidate s) (positions (Next it)) = []"
      by (auto simp: filter_empty_conv start_candidate_def)
    with brk show ?thesis by (subst scanned.simps) (simp add: positions_step)
  next
    case cont
    with "1.prems" have "sorted_wrt (<) (map it_start_90k (positions (Next it)))"
      by (simp add: positions_step)
    with cont "1.IH" "1.prems"(2)
    have "filter (start_candidate s) (positions (Next it))
        = filter (start_candidate s) (scanned e (Next it))" by simp
    with cont show ?thesis by (subst scanned.simps) (simp add: positions_step)
  qed
qed

lemma scan_actual_end:
  "actual_end_90k (snd (scan s e it p))
     = (if visited e it = [] then actual_end_90k p else it_end_90k (last (visited e it)))"
proof (induction s e it p rule: scan.induct)
  case (1 s e it p)
  consider (fin) "it_done it" | (brk) "\<not> it_done it" "e \<le> it_start_90k it"
    | (cont) "\<not> it_done it" "it_start_90k it < e" by linarith
  then show ?case
  proof cases
    case fin
    then show ?thesis by (subst scan.simps) simp
  next
    case brk
    then show ?thesis by (subst scan.simps) (simp add: new_start_candidate_def)
  next
    case cont
    with "1.IH" have "actual_end_90k (snd (scan s e (Next it) (process_frame it (new_start_candidate s it p))))
        = (if visited e (Next it) = [] then it_end_90k it
           else it_end_90k (last (visited e (Next it))))"
      by (simp add: process_frame_def)
    with cont show ?thesis by (subst scan.simps) (simp add: visited_step)
  qed
qed

lemma scan_reaches_end:
  "\<exists>x \<in> set (positions it). e \<le> it_start_90k x \<Longrightarrow>
   it_start_90k it < e \<or> e \<le> actual_end_90k p \<Longrightarrow>
     e \<le> actual_end_90k (snd (scan s e it p))"
proof (induction s e it p rule: scan.induct)
  case (1 s e it p)
  from "1.prems"(1) have nd: "\<not> it_done it" by (cases "it_done it") simp_all
  show ?case
  proof (cases "e \<le> it_start_90k it")
    case True
    with nd "1.prems"(2) show ?thesis
      by (subst scan.simps) (simp add: new_start_candidate_def)
  next
    case False
    with "1.prems"(1) nd have ex: "\<exists>x \<in> set (positions (Next it)). e \<le> it_start_90k x"
      by (auto simp: positions_step)
    have "it_start_90k (Next it) < e \<or>
        e \<le> actual_end_90k (process_frame it (new_start_candidate s it p))"
      using nd by (simp add: process_frame_def start_Next) linarith
    with "1.IH" [OF nd False ex]
    have "e \<le> actual_end_90k (snd (scan s e (Next it) (process_frame it (new_start_candidate s it p))))"
      by simp
    with nd False show ?thesis by (subst scan.simps) simp
  qed
qed


lemma scanned_first: "\<not> it_done it \<Longrightarrow> \<exists>xs. scanned e it = it # xs"
  by (subst scanned.simps) simp

lemma last_positions_step:
  "\<not> it_done it \<Longrightarrow> \<not> it_done (Next it) \<Longrightarrow> last (positions it) = last (positions (Next it))"
  by (simp add: positions_step [of it] positions_step [of "Next it"])

lemma last_positions_single:
  "\<not> it_done it \<Longrightarrow> it_done (Next it) \<Longrightarrow> last (positions it) = it"
  by (simp add: positions_step)

lemma scan_encloses:
  "\<not> it_done it \<Longrightarrow> e \<le> it_end_90k (last (positions it)) \<Longrightarrow>
   it_start_90k it < e \<or> e \<le> actual_end_90k p \<Longrightarrow>
     e \<le> actual_end_90k (snd (scan s e it p))"
proof (induction s e it p rule: scan.induct)
  case (1 s e it p)
  note nd = "1.prems"(1)
  show ?case
  proof (cases "e \<le> it_start_90k it")
    case True
    with nd "1.prems"(3) show ?thesis
      by (subst scan.simps) (simp add: new_start_candidate_def)
  next
    case False
    have step: "scan s e it p = scan s e (Next it) (process_frame it (new_start_candidate s it p))"
      using nd False by (subst scan.simps) simp
    have end_here: "actual_end_90k (process_frame it (new_start_candidate s it p)) = it_end_90k it"
      by (simp add: process_frame_def)
    show ?thesis
    proof (cases "it_done (Next it)")
      case True
      with nd "1.prems"(2) have "e \<le> it_end_90k it" by (simp add: last_positions_single)
      moreover from True have "scan s e (Next it) (process_frame it (new_start_candidate s it p))
          = (Next it, process_frame it (new_start_candidate s it p))"
        by (subst scan.simps) simp
      ultimately show ?thesis by (simp add: step end_here)
    next
      case nd': False
      with nd "1.prems"(2) have last: "e \<le> it_end_90k (last (positions (Next it)))"
        by (simp add: last_positions_step)
      have "it_start_90k (Next it) < e \<or>
          e \<le> actual_end_90k (process_frame it (new_start_candidate s it p))"
        using nd by (simp add: end_here start_Next) linarith
      from "1.IH" [OF nd False nd' last this] show ?thesis by (simp add: step)
    qed
  qed
qed

text \<open>
  C2, as amended. Take a recording whose index is not empty and a slow-path window with
  0 \<le> start_90k \<le> end_90k. After Init returns success, begin is positioned at a key frame
  with begin.start_90k \<le> start_90k: the latest key frame that starts at or before start_90k,
  when the frames start at strictly increasing times. The actual window encloses the
  requested one, actual_end_90k \<ge> end_90k, whenever 0 < end_90k and end_90k is not past the
  end of the recording's last frame (or, as well, some frame starts at or after end_90k);
  for every end_90k > 0, actual_end_90k is the end of the last frame that starts before
  end_90k.
\<close>

theorem Init_slow_path_window:
  assumes ok: "Init this r ei off s e = (None, p)"
    and slow: "\<not> fast_path r s e"
    and s: "0 \<le> s" and se: "s \<le> e"
    and ne: "vi_frames (video_index r) \<noteq> []"
  shows "start_candidate s (begin_it p) \<and> pieces_start_90k p \<le> s \<and>
     (sorted_wrt (<) (map it_start_90k (positions (SampleIndexIterator_of (video_index r))))
        \<longrightarrow> begin_it p = last (filter (start_candidate s)
              (positions (SampleIndexIterator_of (video_index r))))) \<and>
     (0 < e \<longrightarrow> pieces_end_90k p
        = it_end_90k (last (visited e (SampleIndexIterator_of (video_index r))))) \<and>
     (0 < e \<and> e \<le> it_end_90k (last (positions (SampleIndexIterator_of (video_index r))))
        \<longrightarrow> e \<le> pieces_end_90k p) \<and>
     (0 < e \<and> (\<exists>it \<in> set (positions (SampleIndexIterator_of (video_index r))).
          e \<le> it_start_90k it) \<longrightarrow> e \<le> pieces_end_90k p)"
proof -
  define it where "it = SampleIndexIterator_of (video_index r)"
  define p0 where "p0 = this\<lparr>sample_entry_index := ei, sample_offset := off,
     desired_end_90k := e\<rparr>"
  from ne have nd: "\<not> it_done it"
    by (simp add: it_def it_done_def SampleIndexIterator_of_def)
  from ok slow nd have key: "it_is_key it"
    by (auto simp: Init_slow Let_def it_def split: if_splits)
  with ok slow have fill: "init_fillers (fst (scan s e it p0))
     ((snd (scan s e it p0))\<lparr>sample_pos :=
        (sample_pos (snd (scan s e it p0)))\<lparr>br_end := it_pos (fst (scan s e it p0))\<rparr>\<rparr>) = (None, p)"
    by (auto simp: Init_slow Let_def it_def p0_def split: if_splits)
  from init_fillers_None [OF fill]
  have p: "begin_it p = begin_it (snd (scan s e it p0))"
    "actual_end_90k p = actual_end_90k (snd (scan s e it p0))"
    by simp_all
  have start0: "it_start_90k it = 0" by (simp add: it_def)
  with key s have cand: "start_candidate s it" by (simp add: start_candidate_def)
  obtain xs where xs: "scanned e it = it # xs" using scanned_first [OF nd] by blast
  with cand have nonempty: "filter (start_candidate s) (scanned e it) \<noteq> []" by simp
  have chosen: "begin_it p = last (filter (start_candidate s) (scanned e it))"
    using nonempty by (simp add: p scan_begin)
  from nonempty have "last (filter (start_candidate s) (scanned e it))
      \<in> set (filter (start_candidate s) (scanned e it))"
    by (rule last_in_set)
  with chosen have 1: "start_candidate s (begin_it p)" by simp
  then have 2: "pieces_start_90k p \<le> s"
    by (simp add: start_candidate_def pieces_start_90k_def)
  have 3: "begin_it p = last (filter (start_candidate s) (positions it))"
    if "sorted_wrt (<) (map it_start_90k (positions it))"
    using candidates_scanned [OF that se] chosen by simp
  have 4: "pieces_end_90k p = it_end_90k (last (visited e it))" if "0 < e"
  proof -
    from nd that start0 have "visited e it \<noteq> []" by (simp add: visited_step)
    then show ?thesis by (simp add: pieces_end_90k_def p scan_actual_end)
  qed
  have 5: "e \<le> pieces_end_90k p" if "0 < e" "e \<le> it_end_90k (last (positions it))"
  proof -
    from that(1) start0 have "it_start_90k it < e \<or> e \<le> actual_end_90k p0" by simp
    from scan_encloses [OF nd that(2) this] show ?thesis by (simp add: pieces_end_90k_def p)
  qed
  have 6: "e \<le> pieces_end_90k p" if "0 < e" "\<exists>x \<in> set (positions it). e \<le> it_start_90k x"
  proof -
    from that(1) start0 have "it_start_90k it < e \<or> e \<le> actual_end_90k p0" by simp
    from scan_reaches_end [OF that(2) this] show ?thesis by (simp add: pieces_end_90k_def p)
  qed
  from 1 2 3 4 5 6 show ?thesis unfolding it_def by blast
qed

lemma ex_positions:
  "map it_start_90k (positions (SampleIndexIterator_of (video_index ex_recording))) = [0, 100, 200]"
  by (simp add: ex_recording_def ex_index_def positions.simps iterator_defs)

lemma ex_last_end:
  "it_end_90k (last (positions (SampleIndexIterator_of (video_index ex_recording)))) = 300"
  by (simp add: ex_recording_def ex_index_def positions.simps iterator_defs)

theorem Init_slow_path_window_witness:
  "Init Mp4SampleTablePieces_new ex_recording 1 4 150 200 = (None, ex_pieces_window) \<and>
   \<not> fast_path ex_recording 150 200 \<and>
   begin_it ex_pieces_window = last (filter (start_candidate 150)
      (positions (SampleIndexIterator_of (video_index ex_recording)))) \<and>
   pieces_start_90k ex_pieces_window \<le> 150 \<and> 200 \<le> pieces_end_90k ex_pieces_window"
proof -
  have slow: "\<not> fast_path ex_recording 150 200" by (simp add: fast_path_def)
  have s: "(0::int) \<le> 150" "(150::int) \<le> 200" "(0::int) < 200" by simp_all
  have ne: "vi_frames (video_index ex_recording) \<noteq> []"
    by (simp add: ex_recording_def ex_index_def)
  have inc: "sorted_wrt (<) (map it_start_90k
      (positions (SampleIndexIterator_of (video_index ex_recording))))"
    by (simp add: ex_positions)
  have last: "200 \<le> it_end_90k (last (positions (SampleIndexIterator_of (video_index ex_recording))))"
    by (simp add: ex_last_end)
  note c = Init_slow_path_window [OF ex_Init_window slow s(1,2) ne]
  from c inc have c1: "begin_it ex_pieces_window = last (filter (start_candidate 150)
      (positions (SampleIndexIterator_of (video_index ex_recording))))"
    by blast
  from c have c3: "pieces_start_90k ex_pieces_window \<le> 150" by blast
  from c s(3) last have c5: "200 \<le> pieces_end_90k ex_pieces_window" by blast
  from ex_Init_window slow c1 c3 c5 show ?thesis by (intro conjI)
qed

text \<open>The claim as written fails when the recording ends before end_90k: the window
  [150, 900) of the example recording, which lasts 300 ticks, is accepted on the slow path
  with actual_end_90k = 300.\<close>

theorem Init_slow_path_window_counterexample:
  "(0::int) \<le> 150 \<and> (150::int) \<le> 900 \<and> \<not> fast_path ex_recording 150 900 \<and>
   fst (Init Mp4SampleTablePieces_new ex_recording 1 1 150 900) = None \<and>
   pieces_end_90k (snd (Init Mp4SampleTablePieces_new ex_recording 1 1 150 900)) = 300 \<and>
   \<not> 900 \<le> pieces_end_90k (snd (Init Mp4SampleTablePieces_new ex_recording 1 1 150 900))"
  by (simp add: init_defs iterator_defs scan.simps ex_recording_def ex_index_def
      pieces_end_90k_def)

text \<open>Frame times are int32_t values. In the example recording the third frame would
  start at 2147483746; its start is stored as - 2147483550, so the frame is counted for the
  window [1, 2147483647) and actual_end_90k is left negative.\<close>

lemma ex_Init_past_int32:
  "fst (Init Mp4SampleTablePieces_new ex_recording_past_int32 1 1 1 2147483647) = None \<and>
   frames (snd (Init Mp4SampleTablePieces_new ex_recording_past_int32 1 1 1 2147483647)) = 3 \<and>
   actual_end_90k (snd (Init Mp4SampleTablePieces_new ex_recording_past_int32 1 1 1 2147483647))
     = - 2147483450"
  by (simp add: init_defs iterator_defs scan.simps ex_recording_past_int32_def)

section \<open>Declared and produced sizes\<close>

text \<open>On the slow path, for a window that does not start before the recording, every
  filler slice is filled with exactly the bytes declared for it: Init has counted the
  frames the closures visit.\<close>

lemma slow_path_fillers_fit:
  assumes "Init Mp4SampleTablePieces_new r ei off s e = (None, p)"
    and "\<not> fast_path r s e" and "0 \<le> s"
  shows "\<exists>stts stss stsz.
     FillerFileSlice_fill (stts_entries p) (FillSttsEntries p) = Inr stts \<and>
     int (length stts) = 8 * frames p \<and>
     FillerFileSlice_fill (stsz_entries p) (FillStszEntries p) = Inr stsz \<and>
     int (length stsz) = 4 * frames p \<and>
     FillerFileSlice_fill (stss_entries p) (FillStssEntries p) = Inr stss \<and>
     int (length stss) = 4 * key_frames p"
proof -
  from assms(2) have "fast_path r s e \<longrightarrow> metadata_agrees r e" by simp
  note c = Init_counts [OF assms(1,3) this]
  have 1: "int (length (snd (stts_loop (desired_end_90k p) (begin_it p) []))) = 8 * frames p"
    using c stts_loop_eq [of "desired_end_90k p" "begin_it p" "[]"] by simp
  have 2: "int (length (snd (stsz_loop (desired_end_90k p) (begin_it p) []))) = 4 * frames p"
    using c stsz_loop_eq [of "desired_end_90k p" "begin_it p" "[]"] by simp
  have 3: "int (length (snd (stss_loop (desired_end_90k p) (begin_it p)
       (word_of_int (sample_offset p)) []))) = 4 * key_frames p"
    using c stss_loop_eq [of "desired_end_90k p" "begin_it p" "word_of_int (sample_offset p)" "[]"]
    by simp
  from c 1 2 3 show ?thesis
    by (simp add: FillerFileSlice_fill_def Fill_results)
qed

lemma length_positions: "length (positions it) = length (rest it)"
proof (induction it rule: positions.induct)
  case (1 it)
  show ?case
  proof (cases "it_done it")
    case True
    then show ?thesis by (simp add: it_done_def)
  next
    case False
    with "1.IH" have "length (positions (Next it)) = length (rest (Next it))" by simp
    with False show ?thesis
      by (cases "rest it") (simp_all add: positions_step Next_def it_done_def)
  qed
qed

lemma key_positions:
  "length (filter it_is_key (positions it)) = length (filter f_is_key (rest it))"
proof (induction it rule: positions.induct)
  case (1 it)
  show ?case
  proof (cases "rest it")
    case Nil
    then show ?thesis by (simp add: it_done_def)
  next
    case (Cons f fs)
    then have nd: "\<not> it_done it" and key: "it_is_key it = f_is_key f"
      and next_rest: "rest (Next it) = fs"
      by (simp_all add: it_done_def it_is_key_def Next_def)
    from "1.IH" [OF nd] have "length (filter it_is_key (positions (Next it)))
        = length (filter f_is_key fs)" by (simp add: next_rest)
    with nd key Cons show ?thesis by (simp add: positions_step)
  qed
qed

lemma visited_all:
  "\<forall>x \<in> set (positions it). it_start_90k x < e \<Longrightarrow>
     visited e it = positions it \<and> it_done (stop_at e it)"
proof (induction it rule: positions.induct)
  case (1 it)
  show ?case
  proof (cases "it_done it")
    case True
    then show ?thesis by simp
  next
    case False
    with "1.prems" have here: "it_start_90k it < e"
      and rest: "\<forall>x \<in> set (positions (Next it)). it_start_90k x < e"
      by (simp_all add: positions_step)
    from "1.IH" [OF False rest] False here show ?thesis
      by (simp add: visited_step positions_step)
  qed
qed

lemma tail_error_Next [simp]: "tail_error (Next it) = tail_error it"
  by (simp add: Next_def split: list.splits)

lemma tail_error_stop_at [simp]: "tail_error (stop_at e it) = tail_error it"
proof (induction e it rule: stop_at.induct)
  case (1 e it)
  then show ?case by (subst stop_at.simps) simp
qed

text \<open>So it is on the fast path for a recording that meets the data model's invariants
  (the index decodes to video_samples frames, video_sync_samples of them key frames), when
  every frame starts before end_90k.\<close>

lemma fast_path_fillers_fit:
  assumes ok: "Init Mp4SampleTablePieces_new r ei off s e = (None, p)"
    and fast: "fast_path r s e"
    and decodes: "decodes_to_video_samples r"
    and keys: "int (length (filter f_is_key (vi_frames (video_index r)))) = video_sync_samples r"
    and before: "\<forall>it \<in> set (positions (SampleIndexIterator_of (video_index r))).
        it_start_90k it < e"
  shows "\<exists>stts stss stsz.
     FillerFileSlice_fill (stts_entries p) (FillSttsEntries p) = Inr stts \<and>
     int (length stts) = 8 * frames p \<and>
     FillerFileSlice_fill (stsz_entries p) (FillStszEntries p) = Inr stsz \<and>
     int (length stsz) = 4 * frames p \<and>
     FillerFileSlice_fill (stss_entries p) (FillStssEntries p) = Inr stss \<and>
     int (length stss) = 4 * key_frames p"
proof -
  define it where "it = SampleIndexIterator_of (video_index r)"
  from before have all: "visited e it = positions it" "it_done (stop_at e it)"
    using visited_all [of it e] by (simp_all add: it_def)
  have rest: "rest it = vi_frames (video_index r)" "tail_error it = vi_error (video_index r)"
    by (simp_all add: it_def SampleIndexIterator_of_def)
  from decodes have "tail_error (stop_at e it) = None"
    by (simp add: rest decodes_to_video_samples_def)
  then have "\<not> has_error (stop_at e it)" by (simp add: has_error_def)
  with decodes keys all have "metadata_agrees r e"
    by (simp add: metadata_agrees_def Let_def it_def [symmetric] length_positions key_positions
        rest decodes_to_video_samples_def)
  then have agree: "fast_path r s e \<longrightarrow> metadata_agrees r e" by simp
  from fast have s: "0 \<le> s" by (simp add: fast_path_def)
  note c = Init_counts [OF ok s agree]
  have 1: "int (length (snd (stts_loop (desired_end_90k p) (begin_it p) []))) = 8 * frames p"
    using c stts_loop_eq [of "desired_end_90k p" "begin_it p" "[]"] by simp
  have 2: "int (length (snd (stsz_loop (desired_end_90k p) (begin_it p) []))) = 4 * frames p"
    using c stsz_loop_eq [of "desired_end_90k p" "begin_it p" "[]"] by simp
  have 3: "int (length (snd (stss_loop (desired_end_90k p) (begin_it p)
       (word_of_int (sample_offset p)) []))) = 4 * key_frames p"
    using c stss_loop_eq [of "desired_end_90k p" "begin_it p" "word_of_int (sample_offset p)" "[]"]
    by simp
  from c 1 2 3 show ?thesis
    by (simp add: FillerFileSlice_fill_def Fill_results)
qed

text \<open>
  C3. The claim fails on the code, on the fast path. The example recording meets the data
  model's invariants; its last frame has no duration, and it is requested as [0, duration).
  Init takes the fast path, succeeds and declares 2 * 4 * video_samples = 16 bytes for the
  stts slice. The closure stops at the last frame, which does not start before
  desired_end_90k, having appended 8 bytes, and filling the slice ends in FillerWrongSize.
\<close>

theorem fast_path_zero_duration_tail_wrong_size:
  "decodes_to_video_samples ex_recording_zero_tail \<and>
   fast_path ex_recording_zero_tail 0 100 \<and>
   fst (Init Mp4SampleTablePieces_new ex_recording_zero_tail 1 1 0 100) = None \<and>
   stts_entries (snd (Init Mp4SampleTablePieces_new ex_recording_zero_tail 1 1 0 100)) = 16 \<and>
   length (snd (FillSttsEntries
     (snd (Init Mp4SampleTablePieces_new ex_recording_zero_tail 1 1 0 100)) [])) = 8 \<and>
   FillerFileSlice_fill
     (stts_entries (snd (Init Mp4SampleTablePieces_new ex_recording_zero_tail 1 1 0 100)))
     (FillSttsEntries (snd (Init Mp4SampleTablePieces_new ex_recording_zero_tail 1 1 0 100)))
     = Inl FillerWrongSize"
  by (simp add: init_defs iterator_defs ex_recording_zero_tail_def FillSttsEntries_def
      stts_loop.simps FillerFileSlice_fill_def decodes_to_video_samples_def)

section \<open>The stss table\<close>

lemma key_sample_numbers_eq:
  "key_sample_numbers n xs
     = map (\<lambda>i. n + int i) (filter (\<lambda>i. it_is_key (xs ! i)) [0..<length xs])"
proof (induction xs arbitrary: n)
  case Nil
  show ?case by simp
next
  case (Cons x xs)
  have "[0..<length (x # xs)] = 0 # map Suc [0..<length xs]"
    by (simp add: upt_conv_Cons map_Suc_upt del: upt_Suc)
  then show ?case
    by (simp add: Cons.IH filter_map comp_def del: upt_Suc)
qed

lemma emitted_sample_numbers_eq:
  "emitted_sample_numbers p = key_sample_numbers (sample_offset p) (visited (desired_end_90k p) (begin_it p))"
  by (simp add: emitted_sample_numbers_def Let_def key_sample_numbers_eq)

lemma key_sample_numbers_bounds:
  "sorted_wrt (<) (key_sample_numbers n xs) \<and>
   (\<forall>k \<in> set (key_sample_numbers n xs). n \<le> k \<and> k < n + int (length xs))"
proof (induction xs arbitrary: n)
  case Nil
  show ?case by simp
next
  case (Cons x xs)
  from Cons.IH [of "n + 1"] show ?case by (auto simp: sorted_wrt_append)
qed

lemma Append32_append: "Append32 v s = s @ Append32 v []"
  by (simp add: Append32_def AppendU32_def)

lemma stss_loop_content:
  "stss_loop e it (word_of_int n) s =
     (stop_at e it,
      s @ concat (map (\<lambda>k. Append32 (word_of_int k) []) (key_sample_numbers n (visited e it))))"
proof (induction e it arbitrary: n s rule: visited.induct)
  case (1 e it)
  show ?case
  proof (cases "\<not> it_done it \<and> it_start_90k it < e")
    case True
    define s' where "s' = (if it_is_key it then Append32 (word_of_int n) s else s)"
    have s': "s' = s @ concat (map (\<lambda>k. Append32 (word_of_int k) [])
        (if it_is_key it then [n] else []))"
      using Append32_append [of "word_of_int n" s] by (simp add: s'_def)
    have "stss_loop e it (word_of_int n) s = stss_loop e (Next it) (word_of_int (n + 1)) s'"
      using True by (subst stss_loop.simps) (simp add: s'_def)
    also have "\<dots> = (stop_at e (Next it),
        s' @ concat (map (\<lambda>k. Append32 (word_of_int k) [])
          (key_sample_numbers (n + 1) (visited e (Next it)))))"
      using True by (intro "1.IH") simp_all
    also have "\<dots> = (stop_at e it,
        s @ concat (map (\<lambda>k. Append32 (word_of_int k) []) (key_sample_numbers n (visited e it))))"
      using True by (simp add: visited_step s')
    finally show ?thesis .
  next
    case False
    then show ?thesis
      by (subst stss_loop.simps, subst visited.simps, subst stop_at.simps) auto
  qed
qed

lemma length_visited_le: "length (visited e it) \<le> length (rest it)"
proof (induction e it rule: visited.induct)
  case (1 e it)
  show ?case
  proof (cases "\<not> it_done it \<and> it_start_90k it < e")
    case True
    with "1.IH" have "length (visited e (Next it)) \<le> length (rest (Next it))" by simp
    with True show ?thesis
      by (cases "rest it") (simp_all add: visited_step Next_def it_done_def)
  next
    case False
    then show ?thesis by (subst visited.simps) auto
  qed
qed

lemma scan_at_most:
  assumes "visited e (begin_it p) = []" "\<not> has_error (stop_at e (begin_it p))" "0 \<le> frames p"
  shows "int (length (visited e (begin_it (snd (scan s e it p))))) \<le> frames (snd (scan s e it p)) \<and>
     (has_error (stop_at e (begin_it (snd (scan s e it p)))) \<longrightarrow> has_error (fst (scan s e it p)))"
  using assms
proof (induction s e it p rule: scan.induct)
  case (1 s e it p)
  show ?case
  proof (cases "\<not> it_done it \<and> it_is_key it \<and> it_start_90k it \<le> s")
    case True
    then have "scan_post e (scan s e it p)" by (intro scan_counts) simp
    then show ?thesis by (auto simp: scan_post_def split: prod.splits)
  next
    case False
    then have same: "it_done it \<or> new_start_candidate s it p = p"
      by (auto simp: new_start_candidate_def)
    consider (fin) "it_done it" | (brk) "\<not> it_done it" "e \<le> it_start_90k it"
      | (cont) "\<not> it_done it" "it_start_90k it < e" by linarith
    then show ?thesis
    proof cases
      case fin
      with "1.prems" show ?thesis by (subst (1 2 3) scan.simps) simp
    next
      case brk
      with same "1.prems" show ?thesis by (subst (1 2 3) scan.simps) simp
    next
      case cont
      with same have p1: "new_start_candidate s it p = p" by simp
      from "1.prems" have "visited e (begin_it (process_frame it p)) = []"
        "\<not> has_error (stop_at e (begin_it (process_frame it p)))" "0 \<le> frames (process_frame it p)"
        by (simp_all add: process_frame_def)
      with "1.IH" cont p1 have
        "int (length (visited e (begin_it (snd (scan s e (Next it) (process_frame it p))))))
           \<le> frames (snd (scan s e (Next it) (process_frame it p))) \<and>
         (has_error (stop_at e (begin_it (snd (scan s e (Next it) (process_frame it p)))))
           \<longrightarrow> has_error (fst (scan s e (Next it) (process_frame it p))))"
        by simp
      moreover from cont p1 have "scan s e it p = scan s e (Next it) (process_frame it p)"
        by (subst scan.simps) simp
      ultimately show ?thesis by simp
    qed
  qed
qed

lemma Init_at_most:
  assumes ok: "Init Mp4SampleTablePieces_new r ei off s e = (None, p)"
    and fast: "fast_path r s e \<longrightarrow> decodes_to_video_samples r"
  shows "sample_offset p = off \<and> desired_end_90k p = e \<and>
     int (length (visited (desired_end_90k p) (begin_it p))) \<le> frames p \<and>
     \<not> has_error (stop_at (desired_end_90k p) (begin_it p))"
proof (cases "fast_path r s e")
  case True
  with fast have d: "vi_error (video_index r) = None"
    "int (length (vi_frames (video_index r))) = video_samples r"
    by (simp_all add: decodes_to_video_samples_def)
  define it where "it = SampleIndexIterator_of (video_index r)"
  have "length (visited e it) \<le> length (rest it)" by (rule length_visited_le)
  with d(2) have le: "int (length (visited e it)) \<le> video_samples r"
    by (simp add: it_def SampleIndexIterator_of_def)
  from d(1) have "tail_error (stop_at e it) = None"
    by (simp add: it_def SampleIndexIterator_of_def)
  then have ne: "\<not> has_error (stop_at e it)" by (simp add: has_error_def)
  from ok True le ne show ?thesis
    by (auto simp: Init_fast it_def dest!: init_fillers_None)
next
  case False
  define it where "it = SampleIndexIterator_of (video_index r)"
  define p0 where "p0 = Mp4SampleTablePieces_new\<lparr>sample_entry_index := ei, sample_offset := off,
     desired_end_90k := e\<rparr>"
  from ok False have fill: "init_fillers (fst (scan s e it p0))
     ((snd (scan s e it p0))\<lparr>sample_pos :=
        (sample_pos (snd (scan s e it p0)))\<lparr>br_end := it_pos (fst (scan s e it p0))\<rparr>\<rparr>) = (None, p)"
    by (auto simp: Init_slow Let_def it_def p0_def split: if_splits)
  have "visited e (begin_it p0) = []" "\<not> has_error (stop_at e (begin_it p0))" "0 \<le> frames p0"
    by (simp_all add: p0_def Mp4SampleTablePieces_new_def)
  note le = scan_at_most [OF this, of s it]
  have keep: "desired_end_90k (snd (scan s e it p0)) = e"
    "sample_offset (snd (scan s e it p0)) = off"
    using scan_keeps [of s e it p0] by (simp_all add: p0_def)
  from init_fillers_None [OF fill] le keep show ?thesis by simp
qed

lemma chunk_offsets_nth:
  "k < length ns \<Longrightarrow> chunk_offsets pos ns ! k = pos + sum_list (take k ns)"
proof (induction ns arbitrary: pos k)
  case Nil
  then show ?case by simp
next
  case (Cons n ns)
  show ?case
  proof (cases k)
    case 0
    then show ?thesis by simp
  next
    case (Suc j)
    with Cons.prems have "j < length ns" by simp
    from Cons.IH [OF this, of "pos + n"] Suc show ?thesis by simp
  qed
qed

lemma build_segments_result:
  assumes "build_segments entry_id off segs = Inr segs'"
    and "\<forall>seg \<in> set segs. pieces seg = Mp4SampleTablePieces_new"
    and "\<forall>seg \<in> set segs. fast_path (recording seg) (rel_start_90k seg) (rel_end_90k seg)
           \<longrightarrow> decodes_to_video_samples (recording seg)"
  shows "map (\<lambda>seg. sample_offset (pieces seg)) segs'
       = chunk_offsets off (map (\<lambda>seg. samples (pieces seg)) segs') \<and>
     (\<forall>seg \<in> set segs'.
        int (length (visited (desired_end_90k (pieces seg)) (begin_it (pieces seg))))
          \<le> frames (pieces seg) \<and>
        \<not> has_error (stop_at (desired_end_90k (pieces seg)) (begin_it (pieces seg))))"
  using assms
proof (induction segs arbitrary: off segs')
  case Nil
  then show ?case by simp
next
  case (Cons seg segs)
  from Cons.prems(1) obtain p rest' where
    init: "Init (pieces seg) (recording seg) 1 off (rel_start_90k seg) (rel_end_90k seg) = (None, p)"
    and rest: "build_segments entry_id (off + samples p) segs = Inr rest'"
    and segs': "segs' = seg\<lparr>pieces := p\<rparr> # rest'"
    by (auto split: if_splits prod.splits option.splits sum.splits)
  from Cons.prems(2) init
  have init': "Init Mp4SampleTablePieces_new (recording seg) 1 off (rel_start_90k seg)
      (rel_end_90k seg) = (None, p)"
    by simp
  from Cons.prems(3) have "fast_path (recording seg) (rel_start_90k seg) (rel_end_90k seg)
      \<longrightarrow> decodes_to_video_samples (recording seg)"
    by simp
  note p = Init_at_most [OF init' this]
  from Cons.prems(2,3) have "\<forall>seg \<in> set segs. pieces seg = Mp4SampleTablePieces_new"
    "\<forall>seg \<in> set segs. fast_path (recording seg) (rel_start_90k seg) (rel_end_90k seg)
           \<longrightarrow> decodes_to_video_samples (recording seg)"
    by simp_all
  note ih = Cons.IH [OF rest this]
  from p have p1: "sample_offset p = off"
    and p2: "int (length (visited (desired_end_90k p) (begin_it p))) \<le> frames p"
    and p3: "\<not> has_error (stop_at (desired_end_90k p) (begin_it p))"
    by blast+
  from p1 p2 p3 ih show ?case by (simp add: segs')
qed

lemma emitted_sample_numbers_sorted:
  assumes "map sample_offset ps = chunk_offsets off (map samples ps)"
    and "\<forall>p \<in> set ps. int (length (visited (desired_end_90k p) (begin_it p))) \<le> frames p"
  shows "sorted_wrt (<) (concat (map emitted_sample_numbers ps)) \<and>
     (\<forall>n \<in> set (concat (map emitted_sample_numbers ps)). off \<le> n \<and> n < off + sum_list (map samples ps))"
  using assms
proof (induction ps arbitrary: off)
  case Nil
  show ?case by simp
next
  case (Cons p ps)
  from Cons.prems(1) have off: "sample_offset p = off"
    and rest: "map sample_offset ps = chunk_offsets (off + samples p) (map samples ps)"
    by simp_all
  from Cons.prems(2) have len: "int (length (visited (desired_end_90k p) (begin_it p))) \<le> samples p"
    and rest_len: "\<forall>p \<in> set ps. int (length (visited (desired_end_90k p) (begin_it p))) \<le> frames p"
    by (simp_all add: samples_def)
  note ih = Cons.IH [OF rest rest_len]
  note here = key_sample_numbers_bounds [of off "visited (desired_end_90k p) (begin_it p)"]
  have nums: "emitted_sample_numbers p = key_sample_numbers off (visited (desired_end_90k p) (begin_it p))"
    by (simp add: emitted_sample_numbers_eq off)
  have in_here: "off \<le> n \<and> n < off + samples p" if "n \<in> set (emitted_sample_numbers p)" for n
    using that here len by (auto simp: nums)
  have in_rest: "off + samples p \<le> n \<and> n < off + samples p + sum_list (map samples ps)"
    if "n \<in> set (concat (map emitted_sample_numbers ps))" for n
    using that ih by blast
  have nonneg: "0 \<le> samples p" using len by linarith
  have "sorted_wrt (<) (emitted_sample_numbers p @ concat (map emitted_sample_numbers ps))"
    unfolding sorted_wrt_append
  proof (intro conjI ballI)
    show "sorted_wrt (<) (emitted_sample_numbers p)" using here by (simp add: nums)
    show "sorted_wrt (<) (concat (map emitted_sample_numbers ps))" using ih by simp
    fix x y assume "x \<in> set (emitted_sample_numbers p)" "y \<in> set (concat (map emitted_sample_numbers ps))"
    with in_here [of x] in_rest [of y] show "x < y" by linarith
  qed
  moreover have "off \<le> n \<and> n < off + sum_list (map samples (p # ps))"
    if "n \<in> set (concat (map emitted_sample_numbers (p # ps)))" for n
  proof -
    have sum: "0 \<le> sum_list (map samples ps)"
    proof (rule sum_list_nonneg)
      fix x assume "x \<in> set (map samples ps)"
      then obtain q where "q \<in> set ps" "x = samples q" by auto
      with rest_len show "0 \<le> x" by (auto simp: samples_def)
    qed
    from that
    have "n \<in> set (emitted_sample_numbers p) \<or> n \<in> set (concat (map emitted_sample_numbers ps))"
      by simp
    then show ?thesis
    proof
      assume "n \<in> set (emitted_sample_numbers p)"
      from in_here [OF this] sum show ?thesis by simp
    next
      assume "n \<in> set (concat (map emitted_sample_numbers ps))"
      from in_rest [OF this] nonneg show ?thesis by simp
    qed
  qed
  ultimately show ?case by simp
qed

lemma FillStssEntries_numbers:
  "\<not> has_error (stop_at (desired_end_90k p) (begin_it p)) \<Longrightarrow>
     FillStssEntries p [] =
       (None, concat (map (\<lambda>n. Append32 (word_of_int n) []) (emitted_sample_numbers p)))"
  by (simp add: FillStssEntries_def stss_loop_content emitted_sample_numbers_eq)

text \<open>
  What holds for every file built by Build from a builder whose segments are as Append
  made them, whose recordings, where the fast path is taken, decode to exactly
  video_samples frames, and whose samples are few enough for the int32_t counter
  sample_offset: Build gives the first segment sample_offset 1 and every later segment the
  offset of the one before advanced by its frame count; every segment's stss closure
  succeeds with the big-endian u32 image of the numbers it emits, for no more frames than
  Init counted; and the numbers of the whole file, in order, are strictly increasing, at
  least 1 and below 2^32.
\<close>

lemma emitted_sample_numbers_increase:
  assumes built: "Build b = Inr f"
    and fresh: "\<forall>seg \<in> set (b_segments b). pieces seg = Mp4SampleTablePieces_new"
    and decodes: "\<forall>seg \<in> set (b_segments b).
        fast_path (recording seg) (rel_start_90k seg) (rel_end_90k seg)
          \<longrightarrow> decodes_to_video_samples (recording seg)"
    and fits: "1 + sum_list (map (\<lambda>seg. samples (pieces seg)) (segments f)) < 2 ^ 31"
  shows "(\<forall>k < length (segments f). sample_offset (pieces (segments f ! k))
            = 1 + sum_list (map (\<lambda>seg. samples (pieces seg)) (take k (segments f)))) \<and>
     (\<forall>seg \<in> set (segments f).
        FillStssEntries (pieces seg) [] =
          (None, concat (map (\<lambda>n. Append32 (word_of_int n) []) (emitted_sample_numbers (pieces seg)))) \<and>
        int (length (visited (desired_end_90k (pieces seg)) (begin_it (pieces seg))))
          \<le> frames (pieces seg)) \<and>
     sorted_wrt (<) (concat (map (\<lambda>seg. emitted_sample_numbers (pieces seg)) (segments f))) \<and>
     (\<forall>n \<in> set (concat (map (\<lambda>seg. emitted_sample_numbers (pieces seg)) (segments f))).
        1 \<le> n \<and> n < 2 ^ 32)"
proof -
  from built obtain segs where
    segs: "build_segments (vse_id (b_video_sample_entry b)) 1 (b_segments b) = Inr segs"
    and f: "f = Mp4File_new segs (b_video_sample_entry b)"
    by (auto simp: Build_def split: sum.splits if_splits)
  have pieces_f: "map pieces (segments f) = map pieces segs"
    by (simp add: f Mp4File_new_segments comp_def)
  note res = build_segments_result [OF segs fresh decodes]
  define ps where "ps = map pieces (segments f)"
  have ps_segs: "ps = map pieces segs" by (simp add: ps_def pieces_f)
  have offs: "map sample_offset ps = chunk_offsets 1 (map samples ps)"
    using res by (simp add: ps_segs comp_def)
  have ok: "\<forall>p \<in> set ps. int (length (visited (desired_end_90k p) (begin_it p))) \<le> frames p \<and>
      \<not> has_error (stop_at (desired_end_90k p) (begin_it p))"
    using res by (simp add: ps_segs)
  have 1: "sample_offset (pieces (segments f ! k))
      = 1 + sum_list (map (\<lambda>seg. samples (pieces seg)) (take k (segments f)))"
    if "k < length (segments f)" for k
  proof -
    from that have k: "k < length ps" by (simp add: ps_def)
    then have "map sample_offset ps ! k = 1 + sum_list (take k (map samples ps))"
      unfolding offs by (intro chunk_offsets_nth) simp
    with k that show ?thesis by (simp add: ps_def take_map comp_def)
  qed
  have 2: "FillStssEntries (pieces seg) [] =
          (None, concat (map (\<lambda>n. Append32 (word_of_int n) []) (emitted_sample_numbers (pieces seg)))) \<and>
        int (length (visited (desired_end_90k (pieces seg)) (begin_it (pieces seg))))
          \<le> frames (pieces seg)"
    if "seg \<in> set (segments f)" for seg
  proof -
    from that have "pieces seg \<in> set ps" by (simp add: ps_def)
    with ok show ?thesis by (simp add: FillStssEntries_numbers)
  qed
  have "\<forall>p \<in> set ps. int (length (visited (desired_end_90k p) (begin_it p))) \<le> frames p"
    using ok by blast
  note sorted = emitted_sample_numbers_sorted [OF offs this]
  have concat_eq: "concat (map (\<lambda>seg. emitted_sample_numbers (pieces seg)) (segments f))
      = concat (map emitted_sample_numbers ps)"
    by (simp add: ps_def comp_def)
  have sum_eq: "sum_list (map samples ps)
      = sum_list (map (\<lambda>seg. samples (pieces seg)) (segments f))"
    by (simp add: ps_def comp_def)
  have 3: "sorted_wrt (<) (concat (map (\<lambda>seg. emitted_sample_numbers (pieces seg)) (segments f)))"
    using sorted by (simp only: concat_eq)
  have 4: "1 \<le> n \<and> n < 2 ^ 32"
    if "n \<in> set (concat (map (\<lambda>seg. emitted_sample_numbers (pieces seg)) (segments f)))" for n
  proof -
    from that sorted have "1 \<le> n \<and> n < 1 + sum_list (map samples ps)"
      unfolding concat_eq by blast
    with fits show ?thesis unfolding sum_eq by simp
  qed
  from 1 2 3 4 show ?thesis by blast
qed

lemma ex_Init_zero_tail_keys:
  "Init Mp4SampleTablePieces_new ex_recording_zero_tail_keys 1 1 0 100 =
     (None, \<lparr>begin_it = SampleIndexIterator_of (video_index ex_recording_zero_tail_keys),
        sample_pos = \<lparr>br_begin = 0, br_end = 15\<rparr>,
        frames = 2, key_frames = 2, actual_end_90k = 100, desired_end_90k = 100,
        sample_offset = 1, sample_entry_index = 1,
        stts_entries = 16, stss_entries = 8, stsz_entries = 8\<rparr>)"
  by (simp add: init_defs iterator_defs ex_recording_zero_tail_keys_def)

text \<open>
  C4. The claim fails on the code, on the fast path. The example recording meets the data
  model's invariants; both of its frames are key frames, the last without duration, and
  the builder asks for [0, duration). Build succeeds: the segment has sample_offset 1,
  frames = 2 and key_frames = 2, and the frame at position 1 is a key frame, so that the
  table should hold the numbers 1 and 2. The stss closure stops at that frame, which
  does not start before desired_end_90k, and the table holds the number 1 alone.
\<close>

theorem fast_path_zero_duration_tail_key_frame_left_out:
  "decodes_to_video_samples ex_recording_zero_tail_keys \<and>
   \<not> isl (Build ex_builder_zero_tail_keys) \<and>
   map (\<lambda>seg. pieces seg) (segments (projr (Build ex_builder_zero_tail_keys)))
     = [snd (Init Mp4SampleTablePieces_new ex_recording_zero_tail_keys 1 1 0 100)] \<and>
   sample_offset (snd (Init Mp4SampleTablePieces_new ex_recording_zero_tail_keys 1 1 0 100)) = 1 \<and>
   frames (snd (Init Mp4SampleTablePieces_new ex_recording_zero_tail_keys 1 1 0 100)) = 2 \<and>
   key_frames (snd (Init Mp4SampleTablePieces_new ex_recording_zero_tail_keys 1 1 0 100)) = 2 \<and>
   \<not> it_done (Next (begin_it
       (snd (Init Mp4SampleTablePieces_new ex_recording_zero_tail_keys 1 1 0 100)))) \<and>
   it_is_key (Next (begin_it
       (snd (Init Mp4SampleTablePieces_new ex_recording_zero_tail_keys 1 1 0 100)))) \<and>
   FillStssEntries (snd (Init Mp4SampleTablePieces_new ex_recording_zero_tail_keys 1 1 0 100)) []
     = (None, [0, 0, 0, 1]) \<and>
   FillStssEntries (snd (Init Mp4SampleTablePieces_new ex_recording_zero_tail_keys 1 1 0 100)) []
     \<noteq> (None, Append32 2 (Append32 1 [])) \<and>
   FillerFileSlice_fill
     (stss_entries (snd (Init Mp4SampleTablePieces_new ex_recording_zero_tail_keys 1 1 0 100)))
     (FillStssEntries (snd (Init Mp4SampleTablePieces_new ex_recording_zero_tail_keys 1 1 0 100)))
     = Inl FillerWrongSize"
proof -
  have build: "Build ex_builder_zero_tail_keys = Inr (Mp4File_new
      [\<lparr>recording = ex_recording_zero_tail_keys, rel_start_90k = 0, rel_end_90k = 100,
        pieces = snd (Init Mp4SampleTablePieces_new ex_recording_zero_tail_keys 1 1 0 100),
        sample_file_slice = \<lparr>br_begin = 0, br_end = 0\<rparr>\<rparr>] ex_entry)"
    by (simp add: Build_def ex_builder_zero_tail_keys_def Append_def ex_ids
        ex_Init_zero_tail_keys
        ex_recording_zero_tail_keys_def [THEN arg_cong [of _ _ video_sample_entry_id]])
  have fill: "FillStssEntries
      (snd (Init Mp4SampleTablePieces_new ex_recording_zero_tail_keys 1 1 0 100)) []
     = (None, [0, 0, 0, 1])"
    by (simp add: ex_Init_zero_tail_keys)
      (simp add: FillStssEntries_def stss_loop.simps iterator_defs
        ex_recording_zero_tail_keys_def Append32_def AppendU32_def)
  have "decodes_to_video_samples ex_recording_zero_tail_keys"
    by (simp add: decodes_to_video_samples_def ex_recording_zero_tail_keys_def)
  moreover have "\<not> it_done (Next (begin_it
       (snd (Init Mp4SampleTablePieces_new ex_recording_zero_tail_keys 1 1 0 100))))"
    "it_is_key (Next (begin_it
       (snd (Init Mp4SampleTablePieces_new ex_recording_zero_tail_keys 1 1 0 100))))"
    by (simp_all add: ex_Init_zero_tail_keys)
      (simp_all add: iterator_defs ex_recording_zero_tail_keys_def)
  ultimately show ?thesis
    by (simp add: build fill Mp4File_new_segments FillerFileSlice_fill_def)
      (simp add: ex_Init_zero_tail_keys Append32_def AppendU32_def)
qed

end
